theory Spec2Isabelle
  imports Complex_Main "HOL-Library.Log_Nat"
begin

section \<open>The record shown by both components\<close>

text \<open>
  Both source files declare the same shape \<^verbatim>\<open>Dream\<close>: an identifier, the user's text,
  an optional generated story, an optional processing status and an optional analysis
  object with an optional title. The field \<^verbatim>\<open>_id\<close> is called \<open>dream_id\<close> here
  (an Isabelle name cannot start with an underscore); \<^verbatim>\<open>Id<"dreams">\<close> is a branded
  string.
\<close>

type_synonym id_dreams = string

datatype status = Pending | Storified

record analysis =
  title :: "string option"

record dream =
  dream_id :: id_dreams
  content :: string
  story :: "string option"
  status :: "status option"
  analysis :: "analysis option"

text \<open>
  JavaScript truthiness of an optional string: \<^verbatim>\<open>undefined\<close> and the empty string are
  falsy, every other string is truthy.
\<close>

fun truthy :: "string option \<Rightarrow> bool" where
  "truthy None = False"
| "truthy (Some s) = (s \<noteq> [])"

text \<open>\<^verbatim>\<open>dream.analysis?.title\<close>: optional chaining through the optional analysis object.\<close>

fun analysis_title :: "dream \<Rightarrow> string option" where
  "analysis_title d = (case analysis d of None \<Rightarrow> None | Some a \<Rightarrow> title a)"

text \<open>What React prints for \<^verbatim>\<open>{s}\<close> when \<^verbatim>\<open>s\<close> may be undefined: nothing.\<close>

fun shown :: "string option \<Rightarrow> string" where
  "shown None = []"
| "shown (Some s) = s"

section \<open>Array helpers of the host language\<close>

text \<open>
  \<^verbatim>\<open>Array.prototype.findIndex\<close> scans from index 0 and returns the first index whose element
  satisfies the predicate, or -1. \<^verbatim>\<open>indexOf\<close> is the same scan with strict equality.
\<close>

fun findIndex_from :: "('a \<Rightarrow> bool) \<Rightarrow> 'a list \<Rightarrow> int \<Rightarrow> int" where
  "findIndex_from p [] i = - 1"
| "findIndex_from p (x # xs) i = (if p x then i else findIndex_from p xs (i + 1))"

definition findIndex :: "('a \<Rightarrow> bool) \<Rightarrow> 'a list \<Rightarrow> int" where
  "findIndex p xs = findIndex_from p xs 0"

definition indexOf :: "'a list \<Rightarrow> 'a \<Rightarrow> int" where
  "indexOf xs v = findIndex (\<lambda>x. x = v) xs"

text \<open>
  The remainder operator \<^verbatim>\<open>%\<close> truncates towards zero: the result has the sign of the
  dividend.
\<close>

definition js_rem :: "int \<Rightarrow> int \<Rightarrow> int" where
  "js_rem a b = sgn a * (\<bar>a\<bar> mod \<bar>b\<bar>)"

text \<open>Reading an array at an index: \<^verbatim>\<open>undefined\<close> (here \<open>None\<close>) outside the array.\<close>

definition js_at :: "'a list \<Rightarrow> int \<Rightarrow> 'a option" where
  "js_at xs i = (if 0 \<le> i \<and> i < int (length xs) then Some (xs ! nat i) else None)"

text \<open>\<^verbatim>\<open>Math.round\<close>: the nearest integer, a tie going up.\<close>

definition Math_round :: "real \<Rightarrow> int" where
  "Math_round x = \<lfloor>x + 1 / 2\<rfloor>"

section \<open>Numbers of the host language\<close>

text \<open>
  A number of the source is a binary64 floating-point number. It is modelled by the real
  number it denotes; a decimal literal, a sum and a product are the exact result rounded
  to the nearest binary64 number, a tie going to the even significand. \<open>binary64\<close> is
  that rounding: \<open>binary64_exponent x\<close> is the exponent \<open>e\<close> with
  \<open>2^e \<le> |x| < 2^(e+1)\<close> (not below -1022, where the subnormal numbers begin), the
  spacing of the binary64 numbers there is \<open>2^(e - 52)\<close>, and \<open>x\<close> is rounded to a
  multiple of it (lemmas \<open>binary64_exponent_bounds\<close> and \<open>binary64_error\<close> below).
  Overflow to infinity (from about \<open>1.8 * 10^308\<close>) is not modelled;
  no number of this program exceeds 250. Comparison, negation, \<^verbatim>\<open>Math.max\<close>,
  \<^verbatim>\<open>Math.min\<close>, \<^verbatim>\<open>Math.round\<close> and strict equality are exact.
\<close>

definition round_ties_to_even :: "real \<Rightarrow> int" where
  "round_ties_to_even y =
     (let f = \<lfloor>y\<rfloor> in
      if y - of_int f < 1 / 2 then f
      else if 1 / 2 < y - of_int f then f + 1
      else if even f then f else f + 1)"

definition pow2 :: "int \<Rightarrow> real" where
  "pow2 e = (if 0 \<le> e then 2 ^ nat e else 1 / 2 ^ nat (- e))"

definition binary64_exponent :: "real \<Rightarrow> int" where
  "binary64_exponent x =
     (if 1 \<le> \<bar>x\<bar> then bitlen \<lfloor>\<bar>x\<bar>\<rfloor> - 1
      else if x = 0 then - 1022
      else max (- 1022) (- bitlen (\<lceil>1 / \<bar>x\<bar>\<rceil> - 1)))"

definition binary64 :: "real \<Rightarrow> real" where
  "binary64 x =
     (let ulp = pow2 (binary64_exponent x - 52)
      in of_int (round_ties_to_even (x / ulp)) * ulp)"

section \<open>The card component\<close>

text \<open>
  What a component puts on the screen is a list of elements. Only the elements that carry
  data of the record or that a claim speaks about are distinguished; static markup
  (icons, separators, class names) is left out.
\<close>

datatype elem =
    LoadingIndicator
  | TitleText string
  | ContentText string
  | ContentField string
  | StoryText string
  | Notice string

fun is_narrative :: "elem \<Rightarrow> bool" where
  "is_narrative (TitleText _) = True"
| "is_narrative (StoryText _) = True"
| "is_narrative _ = False"

definition DreamCard :: "dream \<Rightarrow> elem list" where
  "DreamCard dream =
     Notice ''< Dream'' #
     (if status dream = Some Pending then [LoadingIndicator]
      else if truthy (story dream) \<or> truthy (analysis_title dream) then
        TitleText (shown (analysis_title dream)) #
        (if truthy (story dream) then [StoryText (shown (story dream))] else [])
      else [Notice ''Story or analysis data unavailable.''])"

section \<open>The focused view: properties and state\<close>

datatype direction = Prev | Next

record props =
  focusedDream :: dream
  allDreams :: "dream list"

definition MIN_SCALE :: real where "MIN_SCALE = 0.5"
definition MAX_SCALE :: real where "MAX_SCALE = 2.5"
definition ZOOM_LEVELS :: "real list" where "ZOOM_LEVELS = [0.5, 1.0, 1.5, 2.0, 2.5]"
definition SCROLL_SENSITIVITY :: real where "SCROLL_SENSITIVITY = binary64 0.15"

text \<open>
  The five presets and both bounds are binary64 numbers as they are written, so their
  literals need no rounding. The literal \<^verbatim>\<open>0.15\<close> is not: it denotes the binary64
  number nearest to 0.15. The operations of the source that round are
  \<^verbatim>\<open>scale + delta\<close> and \<^verbatim>\<open>newScale * 100\<close>.
\<close>

definition currentIndex :: "props \<Rightarrow> int" where
  "currentIndex pr =
     findIndex (\<lambda>dream. dream_id dream = dream_id (focusedDream pr)) (allDreams pr)"

definition isFirst :: "props \<Rightarrow> bool" where
  "isFirst pr = (currentIndex pr = 0)"

definition isLast :: "props \<Rightarrow> bool" where
  "isLast pr = (currentIndex pr = int (length (allDreams pr)) - 1)"

text \<open>
  The state of one mounted view: the four \<^verbatim>\<open>useState\<close> cells the handlers read or write,
  and a trace of everything the view does to the outside: console messages, calls of the
  two backend functions, calls of the two callbacks, and promise rejections nobody caught.
\<close>

datatype call = UpdateDreamContent id_dreams string | GenerateStory id_dreams

record view =
  scale :: real
  zoomPercentage :: int
  isEditing :: bool
  editedContent :: string
  console :: "string list"
  calls :: "call list"
  closes :: nat
  navigations :: "direction list"
  unhandled :: "string list"

definition initial :: "props \<Rightarrow> view" where
  "initial pr =
     \<lparr>scale = 1, zoomPercentage = 100, isEditing = False,
      editedContent = content (focusedDream pr),
      console = [], calls = [], closes = 0, navigations = [], unhandled = []\<rparr>"

section \<open>The focused view: what is rendered\<close>

definition FocusedDreamView :: "props \<Rightarrow> view \<Rightarrow> elem list" where
  "FocusedDreamView pr st =
     (let d = focusedDream pr in
      (if status d = Some Pending then [LoadingIndicator] else []) @
      (if status d \<noteq> Some Pending then
         [TitleText (if truthy (analysis_title d) then shown (analysis_title d)
                     else ''Dream Details''),
          (if isEditing st then ContentField (editedContent st) else ContentText (content d)),
          Notice ''Generated Story:'',
          (if truthy (story d) then StoryText (shown (story d))
           else Notice ''Story not yet generated or failed.'')]
       else []) @
      (if status d \<noteq> Some Pending \<and> \<not> truthy (story d)
       then [Notice ''Story generation failed or is not available.''] else []))"

text \<open>
  The elements of the modal that can receive a click, named after their place in the
  markup: the backdrop, the card (the outer scrollable container) and what it contains,
  the two containers around the toolbar, and the six controls of the toolbar. An icon or
  label inside a control has no handler of its own and counts as the control.
\<close>

datatype target =
    Backdrop
  | Card
  | CardContent
  | ToolbarsContainer
  | MainToolbar
  | PrevButton
  | NextButton
  | ZoomControl
  | EditButton
  | SaveButton
  | RegenerateButton

text \<open>The chain from an element up to the root of the modal, as the markup nests them.\<close>

fun path :: "target \<Rightarrow> target list" where
  "path Backdrop = [Backdrop]"
| "path Card = [Card, Backdrop]"
| "path CardContent = [CardContent, Card, Backdrop]"
| "path ToolbarsContainer = [ToolbarsContainer, Backdrop]"
| "path MainToolbar = [MainToolbar, ToolbarsContainer, Backdrop]"
| "path t = [t, MainToolbar, ToolbarsContainer, Backdrop]"

text \<open>The save button is in the document only while editing; the rest always is.\<close>

fun rendered :: "view \<Rightarrow> target \<Rightarrow> bool" where
  "rendered st SaveButton = isEditing st"
| "rendered st _ = True"

text \<open>The \<^verbatim>\<open>disabled\<close> attribute; a disabled button receives no click event.\<close>

fun disabled :: "props \<Rightarrow> target \<Rightarrow> bool" where
  "disabled pr PrevButton = isFirst pr"
| "disabled pr NextButton = isLast pr"
| "disabled pr _ = False"

datatype control = Button target bool | ZoomLabel int

definition toolbar :: "props \<Rightarrow> view \<Rightarrow> control list" where
  "toolbar pr st =
     [Button PrevButton (disabled pr PrevButton),
      Button NextButton (disabled pr NextButton),
      ZoomLabel (zoomPercentage st),
      Button EditButton (disabled pr EditButton)] @
     (if isEditing st then [Button SaveButton (disabled pr SaveButton)] else []) @
     [Button RegenerateButton (disabled pr RegenerateButton)]"

section \<open>The focused view: handlers\<close>

text \<open>
  A handler is a closure created by a render: it reads the state of that render (\<open>r\<close>)
  and queues updates on the current state (\<open>st\<close>).
\<close>

definition zoomClick :: "view \<Rightarrow> view \<Rightarrow> view" where
  "zoomClick r st =
     (let currentIndex = indexOf ZOOM_LEVELS (scale r);
          nextIndex = js_rem (currentIndex + 1) (int (length ZOOM_LEVELS))
      in case js_at ZOOM_LEVELS nextIndex of
           Some newScale \<Rightarrow>
             st\<lparr>scale := newScale,
                zoomPercentage := Math_round (binary64 (newScale * 100))\<rparr>
         | None \<Rightarrow> st)"

text \<open>
  The branch \<open>None\<close> stands for reading \<^verbatim>\<open>ZOOM_LEVELS\<close> outside the array; the
  lemmas \<open>nextIndex_in_range\<close> and \<open>zoomClick_reads_inside\<close> below show that it is
  never taken.
\<close>

definition handleWheel :: "real \<Rightarrow> view \<Rightarrow> view \<Rightarrow> view" where
  "handleWheel deltaY r st =
     (let delta = (if deltaY < 0 then SCROLL_SENSITIVITY else - SCROLL_SENSITIVITY);
          newScale = max MIN_SCALE (min MAX_SCALE (binary64 (scale r + delta)))
      in st\<lparr>scale := newScale, zoomPercentage := Math_round (binary64 (newScale * 100))\<rparr>)"

text \<open>
  The source attaches this handler to the zoom control twice, with the same body: as a
  native listener in an effect and as the \<^verbatim>\<open>onWheel\<close> property. Both closures belong
  to the same render, so running both on one event leaves the state that running one
  leaves (lemma \<open>handleWheel_twice\<close> below); one wheel event is one application.
\<close>

definition editClick :: "view \<Rightarrow> view \<Rightarrow> view" where
  "editClick r st = st\<lparr>isEditing := \<not> isEditing r\<rparr>"

definition onClose :: "view \<Rightarrow> view" where
  "onClose st = st\<lparr>closes := closes st + 1\<rparr>"

definition onNavigate :: "direction \<Rightarrow> view \<Rightarrow> view" where
  "onNavigate dir st = st\<lparr>navigations := navigations st @ [dir]\<rparr>"

text \<open>
  The two backend functions are outside the repository. A call either throws at once,
  or returns a promise that later resolves or rejects. \<^verbatim>\<open>try\<close> around
  \<^verbatim>\<open>await f(...)\<close> catches a throw and a rejection; \<^verbatim>\<open>try\<close> around a bare
  \<^verbatim>\<open>f(...)\<close> catches a throw only, and the rejection of the dropped promise reaches no
  handler.
\<close>

datatype outcome = Resolves | Rejects string | Throws string

record backend =
  updateDreamContent :: "id_dreams \<Rightarrow> string \<Rightarrow> outcome"
  generateStory :: "id_dreams \<Rightarrow> outcome"

definition console_error :: "string \<Rightarrow> string \<Rightarrow> view \<Rightarrow> view" where
  "console_error msg err st = st\<lparr>console := console st @ [msg @ '' '' @ err]\<rparr>"

definition saveClick :: "backend \<Rightarrow> props \<Rightarrow> view \<Rightarrow> view \<Rightarrow> view" where
  "saveClick be pr r st =
     (let dreamId = dream_id (focusedDream pr);
          st1 = st\<lparr>calls := calls st @ [UpdateDreamContent dreamId (editedContent r)]\<rparr>
      in case updateDreamContent be dreamId (editedContent r) of
           Resolves \<Rightarrow> st1\<lparr>isEditing := False\<rparr>
         | Rejects error \<Rightarrow> console_error ''Failed to save dream:'' error st1
         | Throws error \<Rightarrow> console_error ''Failed to save dream:'' error st1)"

definition regenerateClick :: "backend \<Rightarrow> props \<Rightarrow> view \<Rightarrow> view \<Rightarrow> view" where
  "regenerateClick be pr r st =
     (let dreamId = dream_id (focusedDream pr);
          st1 = (if isEditing r then st\<lparr>isEditing := False\<rparr> else st);
          st2 = st1\<lparr>calls := calls st1 @ [GenerateStory dreamId]\<rparr>
      in case generateStory be dreamId of
           Resolves \<Rightarrow> st2
         | Rejects error \<Rightarrow> st2\<lparr>unhandled := unhandled st2 @ [error]\<rparr>
         | Throws error \<Rightarrow>
             console_error ''Failed to trigger story regeneration:'' error st2)"

section \<open>The focused view: events\<close>

text \<open>
  The click handler of each element and whether it stops the propagation of the event.
  The two toolbar containers and the content of the card have none.
\<close>

fun onClick :: "backend \<Rightarrow> props \<Rightarrow> view \<Rightarrow> target \<Rightarrow> ((view \<Rightarrow> view) \<times> bool) option" where
  "onClick be pr r Backdrop = Some (onClose, False)"
| "onClick be pr r Card = Some (id, True)"
| "onClick be pr r CardContent = None"
| "onClick be pr r ToolbarsContainer = None"
| "onClick be pr r MainToolbar = None"
| "onClick be pr r PrevButton = Some (onNavigate Prev, True)"
| "onClick be pr r NextButton = Some (onNavigate Next, True)"
| "onClick be pr r ZoomControl = Some (zoomClick r, True)"
| "onClick be pr r EditButton = Some (editClick r, True)"
| "onClick be pr r SaveButton = Some (saveClick be pr r, True)"
| "onClick be pr r RegenerateButton = Some (regenerateClick be pr r, True)"

text \<open>An event runs the handlers from the element it hit upwards, until one stops it.\<close>

fun bubble :: "backend \<Rightarrow> props \<Rightarrow> view \<Rightarrow> target list \<Rightarrow> view \<Rightarrow> view" where
  "bubble be pr r [] st = st"
| "bubble be pr r (t # ts) st =
     (case onClick be pr r t of
        None \<Rightarrow> bubble be pr r ts st
      | Some (h, stop) \<Rightarrow> if stop then h st else bubble be pr r ts (h st))"

definition click :: "backend \<Rightarrow> props \<Rightarrow> target \<Rightarrow> view \<Rightarrow> view" where
  "click be pr t st =
     (if rendered st t \<and> \<not> disabled pr t then bubble be pr st (path t) st else st)"

definition wheel :: "real \<Rightarrow> view \<Rightarrow> view" where
  "wheel deltaY st = handleWheel deltaY st st"

text \<open>
  The effect with dependencies \<^verbatim>\<open>[focusedDream.content, focusedDream._id]\<close>: it runs
  after the first render and after every render in which one of the two has changed.
\<close>

definition focusedChanged :: "props \<Rightarrow> view \<Rightarrow> view" where
  "focusedChanged pr st = st\<lparr>editedContent := content (focusedDream pr), isEditing := False\<rparr>"

definition mount :: "props \<Rightarrow> view" where
  "mount pr = focusedChanged pr (initial pr)"

text \<open>
  What can happen to a mounted view: a click, a wheel event on the zoom control, typing
  into the text field (which exists only in edit mode and when the record is not pending),
  and the parent passing new properties.
\<close>

datatype event = Click target | Wheel real | Type string | NewProps props

fun step :: "backend \<Rightarrow> event \<Rightarrow> props \<times> view \<Rightarrow> props \<times> view" where
  "step be (Click t) (pr, st) = (pr, click be pr t st)"
| "step be (Wheel deltaY) (pr, st) = (pr, wheel deltaY st)"
| "step be (Type v) (pr, st) =
     (pr, if isEditing st \<and> status (focusedDream pr) \<noteq> Some Pending
          then st\<lparr>editedContent := v\<rparr> else st)"
| "step be (NewProps pr') (pr, st) =
     (pr', if content (focusedDream pr') \<noteq> content (focusedDream pr)
              \<or> dream_id (focusedDream pr') \<noteq> dream_id (focusedDream pr)
           then focusedChanged pr' st else st)"

fun run :: "backend \<Rightarrow> event list \<Rightarrow> props \<times> view \<Rightarrow> props \<times> view" where
  "run be [] s = s"
| "run be (e # es) s = run be es (step be e s)"

section \<open>The focused view: the style of the document body\<close>

text \<open>
  The inline style of \<^verbatim>\<open>document.body\<close> is a declaration block: it maps the name of a
  property to its declared value, the empty string when the property is not declared.
  \<^verbatim>\<open>position\<close> and \<^verbatim>\<open>width\<close> are properties of their own. \<^verbatim>\<open>overflow\<close> is a
  shorthand for \<^verbatim>\<open>overflow-x\<close> and \<^verbatim>\<open>overflow-y\<close>: assigning one keyword to
  \<^verbatim>\<open>style.overflow\<close> declares both with that keyword, and reading it gives the common
  value of the two, both values when they differ, and the empty string when one of them
  is not declared or when they differ and one is a CSS-wide keyword. The source assigns
  the keywords \<^verbatim>\<open>hidden\<close> and \<^verbatim>\<open>unset\<close> only.
\<close>

type_synonym style = "string \<Rightarrow> string"

definition set_overflow :: "string \<Rightarrow> style \<Rightarrow> style" where
  "set_overflow keyword body = body(''overflow-x'' := keyword, ''overflow-y'' := keyword)"

definition css_wide :: "string \<Rightarrow> bool" where
  "css_wide keyword =
     (keyword \<in> set [''initial'', ''inherit'', ''unset'', ''revert'', ''revert-layer''])"

definition get_overflow :: "style \<Rightarrow> string" where
  "get_overflow body =
     (let x = body ''overflow-x''; y = body ''overflow-y''
      in if x = [] \<or> y = [] then []
         else if x = y then x
         else if css_wide x \<or> css_wide y then []
         else x @ '' '' @ y)"

text \<open>
  The first effect writes the three properties on mount and its cleanup writes them again
  on unmount.
\<close>

definition lockScroll :: "style \<Rightarrow> style" where
  "lockScroll body =
     (set_overflow ''hidden'' body)(''position'' := ''fixed'', ''width'' := ''100%'')"

definition unlockScroll :: "style \<Rightarrow> style" where
  "unlockScroll body =
     (set_overflow ''unset'' body)(''position'' := [], ''width'' := [])"

section \<open>Where the focused record is in the list\<close>

text \<open>
  The focused record is at index \<open>i\<close> of the supplied list when the list has an element
  at \<open>i\<close> and that element carries the focused record's identifier. This is the notion
  the navigation buttons are compared with; the component itself computes
  \<open>currentIndex\<close>.
\<close>

definition focused_at :: "props \<Rightarrow> int \<Rightarrow> bool" where
  "focused_at pr i =
     (case js_at (allDreams pr) i of
        None \<Rightarrow> False
      | Some d \<Rightarrow> dream_id d = dream_id (focusedDream pr))"

section \<open>Example inputs\<close>

text \<open>
  Three records (one complete, one bare, one pending), a fourth record with the content
  of the first under another identifier, a list of the first three with some record
  focused, a backend that accepts every call and one that rejects every call.
\<close>

definition flying :: dream where
  "flying = \<lparr>dream_id = ''d1'', content = ''I was flying'', story = Some ''A bird rose.'',
             status = Some Storified, analysis = Some \<lparr>title = Some ''Flight''\<rparr>\<rparr>"

definition falling :: dream where
  "falling = \<lparr>dream_id = ''d2'', content = ''I was falling'', story = None,
              status = None, analysis = None\<rparr>"

definition swimming :: dream where
  "swimming = \<lparr>dream_id = ''d3'', content = ''I was swimming'', story = Some ''The sea was warm.'',
               status = Some Pending, analysis = Some \<lparr>title = Some ''Sea''\<rparr>\<rparr>"

definition soaring :: dream where
  "soaring = \<lparr>dream_id = ''d4'', content = ''I was flying'', story = None,
              status = Some Storified, analysis = None\<rparr>"

definition journal :: "dream \<Rightarrow> props" where
  "journal d = \<lparr>focusedDream = d, allDreams = [flying, falling, swimming]\<rparr>"

definition online :: backend where
  "online = \<lparr>updateDreamContent = (\<lambda>dreamId content. Resolves),
             generateStory = (\<lambda>dreamId. Resolves)\<rparr>"

definition offline :: backend where
  "offline = \<lparr>updateDreamContent = (\<lambda>dreamId content. Rejects ''offline''),
              generateStory = (\<lambda>dreamId. Rejects ''offline'')\<rparr>"

section \<open>Facts about binary64 rounding\<close>

text \<open>Rounding a given number: name the exponent, then the spacing, then the multiple.\<close>

lemma binary64_eqI:
  assumes "binary64_exponent x = e" and "pow2 (e - 52) = u"
    and "round_ties_to_even (x / u) = m"
  shows "binary64 x = of_int m * u"
  using assms by (simp add: binary64_def)

lemma round_ties_to_even_error: "\<bar>of_int (round_ties_to_even y) - y\<bar> \<le> 1 / 2"
  unfolding round_ties_to_even_def Let_def by (auto simp: abs_if) linarith+

lemma pow2_pos: "0 < pow2 e"
  by (simp add: pow2_def)

lemma pow2_powr: "pow2 e = 2 powr (of_int e)"
  by (cases "0 \<le> e") (simp_all add: pow2_def powr_realpow [symmetric] powr_minus_divide)

lemma pow2_mono: "e \<le> e' \<Longrightarrow> pow2 e \<le> pow2 e'"
  by (simp add: pow2_powr)

text \<open>The rounding error is at most half the spacing.\<close>

lemma binary64_error: "\<bar>binary64 x - x\<bar> \<le> pow2 (binary64_exponent x - 52) / 2"
proof -
  define u where "u = pow2 (binary64_exponent x - 52)"
  have u: "0 < u" by (simp add: u_def pow2_pos)
  have "\<bar>of_int (round_ties_to_even (x / u)) - x / u\<bar> \<le> 1 / 2"
    by (rule round_ties_to_even_error)
  then have "\<bar>of_int (round_ties_to_even (x / u)) - x / u\<bar> * u \<le> 1 / 2 * u"
    using u by (simp add: mult_right_mono)
  moreover have "\<bar>of_int (round_ties_to_even (x / u)) - x / u\<bar> * u =
      \<bar>(of_int (round_ties_to_even (x / u)) - x / u) * u\<bar>"
    using u by (simp add: abs_mult_pos)
  moreover have "(of_int (round_ties_to_even (x / u)) - x / u) * u =
      of_int (round_ties_to_even (x / u)) * u - x"
    using u by (simp add: left_diff_distrib)
  ultimately show ?thesis by (simp add: binary64_def u_def [symmetric])
qed

lemma binary64_exponent_small:
  assumes "\<bar>x\<bar> < 4"
  shows "binary64_exponent x \<le> 1"
proof (cases "1 \<le> \<bar>x\<bar>")
  case True
  define m where "m = \<lfloor>\<bar>x\<bar>\<rfloor>"
  have "1 \<le> m" unfolding m_def using True by (simp add: le_floor_iff)
  moreover have "m < 4" unfolding m_def using assms by (simp add: floor_less_iff)
  ultimately have "m = 1 \<or> m = 2 \<or> m = 3" by arith
  moreover have "bitlen 1 = 1" "bitlen 2 = 2" "bitlen 3 = 2"
    by (simp_all add: compute_bitlen)
  ultimately have "bitlen m \<le> 2" by (elim disjE) simp_all
  then show ?thesis using True by (simp add: binary64_exponent_def m_def)
next
  case False
  then show ?thesis using bitlen_nonneg [of "\<lceil>1 / \<bar>x\<bar>\<rceil> - 1"]
    by (simp add: binary64_exponent_def)
qed

lemma binary64_error_small: "\<bar>x\<bar> < 4 \<Longrightarrow> \<bar>binary64 x - x\<bar> \<le> 1 / 2 ^ 52"
proof -
  assume "\<bar>x\<bar> < 4"
  then have "pow2 (binary64_exponent x - 52) \<le> pow2 (1 - 52)"
    by (intro pow2_mono) (simp add: binary64_exponent_small)
  then have "pow2 (binary64_exponent x - 52) / 2 \<le> 1 / 2 ^ 52" by (simp add: pow2_def)
  then show ?thesis using binary64_error [of x] by linarith
qed

text \<open>The exponent is the right one for every number that is not subnormal.\<close>

lemma two_power_le_of_int: "2 ^ n \<le> m \<Longrightarrow> (2::real) ^ n \<le> of_int m"
proof -
  assume "2 ^ n \<le> m"
  then have "(of_int (2 ^ n) :: real) \<le> of_int m" by (simp only: of_int_le_iff)
  then show ?thesis by simp
qed

lemma of_int_le_two_power: "m \<le> 2 ^ n \<Longrightarrow> of_int m \<le> (2::real) ^ n"
proof -
  assume "m \<le> 2 ^ n"
  then have "(of_int m :: real) \<le> of_int (2 ^ n)" by (simp only: of_int_le_iff)
  then show ?thesis by simp
qed

lemma binary64_exponent_bounds:
  assumes "1 / 2 ^ 1022 \<le> \<bar>x\<bar>"
  shows "pow2 (binary64_exponent x) \<le> \<bar>x\<bar> \<and> \<bar>x\<bar> < pow2 (binary64_exponent x + 1)"
proof (cases "1 \<le> \<bar>x\<bar>")
  case True
  define m where "m = \<lfloor>\<bar>x\<bar>\<rfloor>"
  have m: "0 < m" unfolding m_def using True by (simp add: less_floor_iff)
  have e: "binary64_exponent x = bitlen m - 1"
    using True by (simp add: binary64_exponent_def m_def)
  have b1: "1 \<le> bitlen m" using m bitlen_eq_zero_iff [of m] bitlen_nonneg [of m] by arith
  have lo: "2 ^ nat (bitlen m - 1) \<le> m" and hi: "m < 2 ^ nat (bitlen m)"
    using bitlen_bounds [OF m] by simp_all
  have "(2::real) ^ nat (bitlen m - 1) \<le> real_of_int m"
    using lo by (rule two_power_le_of_int)
  also have "real_of_int m \<le> \<bar>x\<bar>" unfolding m_def by simp
  finally have "(2::real) ^ nat (bitlen m - 1) \<le> \<bar>x\<bar>" .
  then have l: "pow2 (bitlen m - 1) \<le> \<bar>x\<bar>" using b1 by (simp add: pow2_def)
  have "m + 1 \<le> 2 ^ nat (bitlen m)" using hi by simp
  then have "real_of_int (m + 1) \<le> (2::real) ^ nat (bitlen m)"
    by (rule of_int_le_two_power)
  moreover have "\<bar>x\<bar> < real_of_int (m + 1)" unfolding m_def by linarith
  ultimately have "\<bar>x\<bar> < (2::real) ^ nat (bitlen m)" by linarith
  then have "\<bar>x\<bar> < pow2 (bitlen m - 1 + 1)" using b1 by (simp add: pow2_def)
  then show ?thesis using l e by simp
next
  case False
  have x0: "0 < \<bar>x\<bar>" using assms by (smt (verit) divide_pos_pos zero_less_numeral zero_less_power)
  define n where "n = \<lceil>1 / \<bar>x\<bar>\<rceil> - 1"
  define k where "k = bitlen n"
  have inv: "1 < 1 / \<bar>x\<bar>" using False x0 by simp
  then have n: "0 < n" unfolding n_def by linarith
  have k1: "1 \<le> k" unfolding k_def using n bitlen_eq_zero_iff [of n] bitlen_nonneg [of n] by arith
  have lo: "2 ^ nat (k - 1) \<le> n" and hi: "n < 2 ^ nat k"
    using bitlen_bounds [OF n] by (simp_all add: k_def)
  have "1 / \<bar>x\<bar> \<le> real_of_int (n + 1)" unfolding n_def by simp
  also have "real_of_int (n + 1) \<le> (2::real) ^ nat k"
    using hi by (intro of_int_le_two_power) simp
  finally have up: "1 / \<bar>x\<bar> \<le> 2 ^ nat k" .
  have "(2::real) ^ nat (k - 1) \<le> real_of_int n" using lo by (rule two_power_le_of_int)
  also have "real_of_int n < 1 / \<bar>x\<bar>" unfolding n_def by linarith
  finally have dn: "2 ^ nat (k - 1) < 1 / \<bar>x\<bar>" .
  have a: "1 / 2 ^ nat k \<le> \<bar>x\<bar>"
    using up x0 by (simp add: field_simps)
  have b: "\<bar>x\<bar> < 1 / 2 ^ nat (k - 1)"
    using dn x0 by (simp add: field_simps)
  have "1 / \<bar>x\<bar> \<le> 2 ^ 1022" using assms x0 by (simp add: field_simps)
  with dn have lt: "(2::real) ^ nat (k - 1) < 2 ^ 1022" by (rule less_le_trans)
  have "(1::real) < 2" by simp
  from this and lt have "nat (k - 1) < 1022" by (rule power_less_imp_less_exp)
  then have k2: "k \<le> 1022" by simp
  have e: "binary64_exponent x = - k"
    using False x0 k2 by (simp add: binary64_exponent_def k_def n_def)
  have p1: "pow2 (- k) = 1 / 2 ^ nat k" using k1 by (simp add: pow2_def)
  have p2: "pow2 (- k + 1) = 1 / 2 ^ nat (k - 1)"
    using k1 by (cases "k = 1") (simp_all add: pow2_def)
  show ?thesis unfolding e p1 p2 using a b by simp
qed

lemmas binary64_eval = binary64_exponent_def compute_bitlen pow2_def round_ties_to_even_def

lemma SCROLL_SENSITIVITY_value: "SCROLL_SENSITIVITY = 5404319552844595 / 2 ^ 55"
proof -
  have "binary64 (3 / 20) = of_int 5404319552844595 * (1 / 2 ^ 55)"
    by (rule binary64_eqI [where e = "- 3"]) (simp_all add: binary64_eval)
  then show ?thesis by (simp add: SCROLL_SENSITIVITY_def)
qed

lemma SCROLL_SENSITIVITY_error: "\<bar>SCROLL_SENSITIVITY - 0.15\<bar> \<le> 1 / 2 ^ 57"
  by (simp add: SCROLL_SENSITIVITY_value)

lemma binary64_percent:
  "binary64 50 = 50" "binary64 100 = 100" "binary64 150 = 150" "binary64 200 = 200"
  "binary64 250 = 250"
proof -
  have "binary64 50 = of_int (50 * 2 ^ 47) * (1 / 2 ^ 47)"
    by (rule binary64_eqI [where e = 5]) (simp_all add: binary64_eval)
  then show "binary64 50 = 50" by simp
  have "binary64 100 = of_int (100 * 2 ^ 46) * (1 / 2 ^ 46)"
    by (rule binary64_eqI [where e = 6]) (simp_all add: binary64_eval)
  then show "binary64 100 = 100" by simp
  have "binary64 150 = of_int (150 * 2 ^ 45) * (1 / 2 ^ 45)"
    by (rule binary64_eqI [where e = 7]) (simp_all add: binary64_eval)
  then show "binary64 150 = 150" by simp
  have "binary64 200 = of_int (200 * 2 ^ 45) * (1 / 2 ^ 45)"
    by (rule binary64_eqI [where e = 7]) (simp_all add: binary64_eval)
  then show "binary64 200 = 200" by simp
  have "binary64 250 = of_int (250 * 2 ^ 45) * (1 / 2 ^ 45)"
    by (rule binary64_eqI [where e = 7]) (simp_all add: binary64_eval)
  then show "binary64 250 = 250" by simp
qed

text \<open>The sums and the product that the wheel examples below go through.\<close>

lemma wheel_up_from_1: "binary64 (1 + SCROLL_SENSITIVITY) = 5179139571476070 / 2 ^ 52"
proof -
  have "binary64 (1 + 5404319552844595 / 2 ^ 55) = of_int 5179139571476070 * (1 / 2 ^ 52)"
    by (rule binary64_eqI [where e = 0]) (simp_all add: binary64_eval)
  then show ?thesis by (simp add: SCROLL_SENSITIVITY_value)
qed

lemma wheel_down_from_1: "binary64 (1 - SCROLL_SENSITIVITY) = 7656119366529843 / 2 ^ 53"
proof -
  have "binary64 (1 - 5404319552844595 / 2 ^ 55) = of_int 7656119366529843 * (1 / 2 ^ 53)"
    by (rule binary64_eqI [where e = "- 1"]) (simp_all add: binary64_eval)
  then show ?thesis by (simp add: SCROLL_SENSITIVITY_value)
qed

lemma wheel_down_after_up:
  "binary64 (5179139571476070 / 2 ^ 52 - SCROLL_SENSITIVITY) = 1 - 1 / 2 ^ 53"
proof -
  have "binary64 (5179139571476070 / 2 ^ 52 - 5404319552844595 / 2 ^ 55) =
          of_int 9007199254740991 * (1 / 2 ^ 53)"
    by (rule binary64_eqI [where e = "- 1"]) (simp_all add: binary64_eval)
  then show ?thesis by (simp add: SCROLL_SENSITIVITY_value)
qed

lemma percent_after_up_down: "binary64 ((1 - 1 / 2 ^ 53) * 100) = 100 - 1 / 2 ^ 46"
proof -
  have "binary64 ((1 - 1 / 2 ^ 53) * 100) = of_int 7036874417766399 * (1 / 2 ^ 46)"
    by (rule binary64_eqI [where e = 6]) (simp_all add: binary64_eval)
  then show ?thesis by simp
qed

section \<open>Facts about the helpers and the handlers\<close>

lemma click_ZoomControl: "click be pr ZoomControl st = zoomClick st st"
  by (simp add: click_def)

lemma findIndex_from_none: "(\<forall>x\<in>set xs. \<not> p x) \<Longrightarrow> findIndex_from p xs i = - 1"
  by (induction xs arbitrary: i) auto

lemma findIndex_from_range: "findIndex_from p xs i = - 1 \<or> (i \<le> findIndex_from p xs i \<and> findIndex_from p xs i < i + int (length xs))"
proof (induction xs arbitrary: i)
  case Nil
  then show ?case by simp
next
  case (Cons x xs)
  from Cons [of "i + 1"] show ?case by auto
qed

lemma findIndex_from_last:
  "0 \<le> i \<Longrightarrow> xs \<noteq> [] \<Longrightarrow>
   findIndex_from p xs i = i + int (length xs) - 1 \<longleftrightarrow>
     p (last xs) \<and> (\<forall>x\<in>set (butlast xs). \<not> p x)"
proof (induction xs arbitrary: i)
  case Nil
  then show ?case by simp
next
  case (Cons x xs)
  note IH = Cons.IH and nonneg = Cons.prems(1)
  show ?case
  proof (cases xs)
    case Nil
    then show ?thesis using nonneg by simp
  next
    case tail: (Cons y ys)
    show ?thesis
    proof (cases "p x")
      case True
      then show ?thesis using tail by simp
    next
      case False
      have "findIndex_from p xs (i + 1) = (i + 1) + int (length xs) - 1 \<longleftrightarrow>
              p (last xs) \<and> (\<forall>x\<in>set (butlast xs). \<not> p x)"
        using IH [of "i + 1"] nonneg tail by simp
      then show ?thesis using False tail by simp
    qed
  qed
qed

lemma findIndex_zero: "findIndex p xs = 0 \<longleftrightarrow> xs \<noteq> [] \<and> p (hd xs)"
proof (cases xs)
  case Nil
  then show ?thesis by (simp add: findIndex_def)
next
  case (Cons x ys)
  then show ?thesis using findIndex_from_range [of p ys 1] by (auto simp: findIndex_def)
qed

lemma distinct_last_only:
  assumes "distinct (map f xs)" "xs \<noteq> []" "f (last xs) = k"
  shows "\<forall>x\<in>set (butlast xs). f x \<noteq> k"
proof -
  have "distinct (map f (butlast xs @ [last xs]))" using assms by simp
  then have "f (last xs) \<notin> f ` set (butlast xs)" by (simp del: append_butlast_last_id)
  then show ?thesis using assms(3) by (metis imageI)
qed

lemma prev_disabled_iff: "disabled pr PrevButton \<longleftrightarrow> focused_at pr 0"
  by (cases "allDreams pr") (auto simp: isFirst_def currentIndex_def findIndex_zero focused_at_def js_at_def)

lemma next_disabled_iff:
  assumes "allDreams pr \<noteq> []" "distinct (map dream_id (allDreams pr))"
  shows "disabled pr NextButton \<longleftrightarrow> focused_at pr (int (length (allDreams pr)) - 1)"
proof -
  let ?xs = "allDreams pr" and ?p = "\<lambda>dream. dream_id dream = dream_id (focusedDream pr)"
  have n: "nat (int (length ?xs) - 1) = length ?xs - 1" by simp
  have "focused_at pr (int (length ?xs) - 1) \<longleftrightarrow> ?p (last ?xs)"
    using assms(1) by (simp add: focused_at_def js_at_def last_conv_nth n)
  moreover have "disabled pr NextButton \<longleftrightarrow> ?p (last ?xs) \<and> (\<forall>x\<in>set (butlast ?xs). \<not> ?p x)"
    using findIndex_from_last [of 0 ?xs ?p] assms(1) by (simp add: isLast_def currentIndex_def findIndex_def)
  ultimately show ?thesis using distinct_last_only [OF assms(2) assms(1)] by blast
qed

lemma click_Backdrop: "click be pr Backdrop st = onClose st"
  by (simp add: click_def)
lemma click_Card: "click be pr Card st = st"
  by (simp add: click_def)
lemma click_CardContent: "click be pr CardContent st = st"
  by (simp add: click_def)
lemma click_ToolbarsContainer: "click be pr ToolbarsContainer st = onClose st"
  by (simp add: click_def)
lemma click_MainToolbar: "click be pr MainToolbar st = onClose st"
  by (simp add: click_def)
lemma click_PrevButton: "click be pr PrevButton st = (if isFirst pr then st else onNavigate Prev st)"
  by (simp add: click_def)
lemma click_NextButton: "click be pr NextButton st = (if isLast pr then st else onNavigate Next st)"
  by (simp add: click_def)
lemma click_EditButton: "click be pr EditButton st = editClick st st"
  by (simp add: click_def)
lemma click_SaveButton:
  "click be pr SaveButton st = (if isEditing st then saveClick be pr st st else st)"
  by (simp add: click_def)
lemma click_RegenerateButton: "click be pr RegenerateButton st = regenerateClick be pr st st"
  by (simp add: click_def)

lemmas click_simps = click_Backdrop click_Card click_CardContent click_ToolbarsContainer
  click_MainToolbar click_PrevButton click_NextButton click_ZoomControl click_EditButton
  click_SaveButton click_RegenerateButton

lemmas handler_defs = onClose_def onNavigate_def editClick_def saveClick_def
  regenerateClick_def console_error_def

lemma indexOf_ZOOM_LEVELS:
  "indexOf ZOOM_LEVELS s =
     (if s = 1/2 then 0 else if s = 1 then 1 else if s = 3/2 then 2
      else if s = 2 then 3 else if s = 5/2 then 4 else - 1)"
  by (simp add: indexOf_def findIndex_def ZOOM_LEVELS_def)

lemma nextIndex_in_range:
  "0 \<le> js_rem (indexOf ZOOM_LEVELS s + 1) (int (length ZOOM_LEVELS)) \<and>
   js_rem (indexOf ZOOM_LEVELS s + 1) (int (length ZOOM_LEVELS)) < int (length ZOOM_LEVELS)"
  unfolding indexOf_ZOOM_LEVELS by (simp add: js_rem_def ZOOM_LEVELS_def)

lemma zoomClick_reads_inside:
  "js_at ZOOM_LEVELS (js_rem (indexOf ZOOM_LEVELS s + 1) (int (length ZOOM_LEVELS))) \<noteq> None"
  using nextIndex_in_range [of s] unfolding js_at_def by simp

lemma zoomClick_scale:
  "scale (zoomClick r st) =
     (if scale r = 1/2 then 1 else if scale r = 1 then 3/2 else if scale r = 3/2 then 2
      else if scale r = 2 then 5/2 else 1/2)"
  by (simp add: zoomClick_def indexOf_ZOOM_LEVELS js_rem_def) (simp add: js_at_def ZOOM_LEVELS_def)

lemma zoomClick_percentage:
  "zoomPercentage (zoomClick r st) =
     (if scale r = 1/2 then 100 else if scale r = 1 then 150 else if scale r = 3/2 then 200
      else if scale r = 2 then 250 else 50)"
  by (simp add: zoomClick_def indexOf_ZOOM_LEVELS js_rem_def)
     (simp add: js_at_def ZOOM_LEVELS_def binary64_percent Math_round_def)

lemma clamp_range: "1/2 \<le> max MIN_SCALE (min MAX_SCALE x) \<and> max MIN_SCALE (min MAX_SCALE x) \<le> 5/2"
  by (simp add: MIN_SCALE_def MAX_SCALE_def)

lemma wheel_scale:
  "scale (wheel deltaY st) =
     max MIN_SCALE (min MAX_SCALE
       (binary64 (scale st + (if deltaY < 0 then SCROLL_SENSITIVITY else - SCROLL_SENSITIVITY))))"
  by (simp add: wheel_def handleWheel_def Let_def)

lemma wheel_up_scale:
  "deltaY < 0 \<Longrightarrow>
   scale (wheel deltaY st) = max (1/2) (min (5/2) (binary64 (scale st + SCROLL_SENSITIVITY)))"
  by (simp add: wheel_scale MIN_SCALE_def MAX_SCALE_def)

lemma wheel_down_scale:
  "0 \<le> deltaY \<Longrightarrow>
   scale (wheel deltaY st) = max (1/2) (min (5/2) (binary64 (scale st - SCROLL_SENSITIVITY)))"
  by (simp add: wheel_scale MIN_SCALE_def MAX_SCALE_def)

lemma wheel_percentage:
  "zoomPercentage (wheel deltaY st) = Math_round (binary64 (scale (wheel deltaY st) * 100))"
  by (simp add: wheel_def handleWheel_def Let_def)

lemma clamp_lipschitz:
  "\<bar>max lo (min hi a) - max lo (min hi b)\<bar> \<le> \<bar>a - b\<bar>" for a b lo hi :: real
  by (simp add: max_def min_def abs_if)

text \<open>
  A wheel event at a scale within the bounds lands within \<open>2^-51\<close> of the exact sum, clamped.
\<close>

lemma wheel_error:
  assumes "1/2 \<le> scale st" and "scale st \<le> 5/2"
  shows "\<bar>scale (wheel deltaY st) -
          max (1/2) (min (5/2) (scale st + (if deltaY < 0 then 0.15 else - 0.15)))\<bar> \<le> 1 / 2 ^ 51"
proof -
  define d where "d = (if deltaY < 0 then SCROLL_SENSITIVITY else - SCROLL_SENSITIVITY)"
  define c :: real where "c = (if deltaY < 0 then 0.15 else - 0.15)"
  define b where "b = binary64 (scale st + d)"
  define e1 :: real where "e1 = 1 / 2 ^ 57"
  define e2 :: real where "e2 = 1 / 2 ^ 52"
  have "\<bar>SCROLL_SENSITIVITY - 0.15\<bar> \<le> e1"
    unfolding e1_def by (rule SCROLL_SENSITIVITY_error)
  then have dc: "\<bar>d - c\<bar> \<le> e1"
    unfolding d_def c_def by (cases "deltaY < 0") (simp_all add: abs_minus_commute)
  have "\<bar>d\<bar> \<le> 1" by (simp add: d_def SCROLL_SENSITIVITY_value)
  then have "\<bar>scale st + d\<bar> < 4" using assms by linarith
  then have "\<bar>b - (scale st + d)\<bar> \<le> e2"
    unfolding b_def e2_def by (rule binary64_error_small)
  then have "\<bar>b - (scale st + c)\<bar> \<le> e1 + e2" using dc by linarith
  also have "e1 + e2 \<le> 1 / 2 ^ 51" by (simp add: e1_def e2_def)
  finally have close: "\<bar>b - (scale st + c)\<bar> \<le> 1 / 2 ^ 51" .
  have "\<bar>max (1/2) (min (5/2) b) - max (1/2) (min (5/2) (scale st + c))\<bar>
      \<le> \<bar>b - (scale st + c)\<bar>"
    by (rule clamp_lipschitz)
  also note close
  finally have "\<bar>max (1/2) (min (5/2) b) - max (1/2) (min (5/2) (scale st + c))\<bar>
      \<le> 1 / 2 ^ 51" .
  moreover have "scale (wheel deltaY st) = max (1/2) (min (5/2) b)"
    by (simp add: wheel_scale b_def d_def MIN_SCALE_def MAX_SCALE_def)
  ultimately show ?thesis unfolding c_def by simp
qed

lemma wheel_down_error:
  assumes "0 < deltaY" and "0.5 \<le> scale st" and "scale st \<le> 2.5"
  shows "\<bar>scale (wheel deltaY st) - max 0.5 (min 2.5 (scale st - 0.15))\<bar> \<le> 1 / 2 ^ 51"
proof -
  have "\<not> deltaY < 0" using assms(1) by simp
  moreover have "\<bar>scale (wheel deltaY st) -
      max (1/2) (min (5/2) (scale st + (if deltaY < 0 then 0.15 else - 0.15)))\<bar> \<le> 1 / 2 ^ 51"
    using assms(2,3) by (intro wheel_error) simp_all
  ultimately show ?thesis by simp
qed

lemma wheel_up_error:
  assumes "deltaY < 0" and "0.5 \<le> scale st" and "scale st \<le> 2.5"
  shows "\<bar>scale (wheel deltaY st) - max 0.5 (min 2.5 (scale st + 0.15))\<bar> \<le> 1 / 2 ^ 51"
proof -
  have "\<bar>scale (wheel deltaY st) -
      max (1/2) (min (5/2) (scale st + (if deltaY < 0 then 0.15 else - 0.15)))\<bar> \<le> 1 / 2 ^ 51"
    using assms(2,3) by (intro wheel_error) simp_all
  then show ?thesis using assms(1) by simp
qed


lemma handleWheel_twice:
  "handleWheel deltaY r (handleWheel deltaY r st) = handleWheel deltaY r st"
  by (simp add: handleWheel_def Let_def)

lemma click_scale_other: "t \<noteq> ZoomControl \<Longrightarrow> scale (click be pr t st) = scale st"
  by (cases t) (simp_all add: click_simps handler_defs Let_def split: outcome.split)

lemma click_scale_range:
  assumes "1/2 \<le> scale st \<and> scale st \<le> 5/2"
  shows "1/2 \<le> scale (click be pr t st) \<and> scale (click be pr t st) \<le> 5/2"
proof (cases "t = ZoomControl")
  case True
  then show ?thesis by (simp add: click_ZoomControl zoomClick_scale)
next
  case False
  then show ?thesis using assms by (simp add: click_scale_other)
qed

lemma step_scale_range:
  assumes "1/2 \<le> scale (snd s) \<and> scale (snd s) \<le> 5/2"
  shows "1/2 \<le> scale (snd (step be e s)) \<and> scale (snd (step be e s)) \<le> 5/2"
proof (cases s)
  case (Pair pr st)
  show ?thesis
  proof (cases e)
    case (Click t)
    then show ?thesis using assms Pair click_scale_range [of st be pr t] by simp
  next
    case (Wheel deltaY)
    then show ?thesis using Pair clamp_range by (simp add: wheel_scale)
  next
    case (Type v)
    then show ?thesis using assms Pair by simp
  next
    case (NewProps pr')
    then show ?thesis using assms Pair by (simp add: focusedChanged_def)
  qed
qed

lemma run_scale_range:
  "1/2 \<le> scale (snd s) \<and> scale (snd s) \<le> 5/2 \<Longrightarrow>
   1/2 \<le> scale (snd (run be es s)) \<and> scale (snd (run be es s)) \<le> 5/2"
proof (induction es arbitrary: s)
  case Nil
  then show ?case by simp
next
  case (Cons e es)
  show ?case using Cons.IH [OF step_scale_range [OF Cons.prems]] by simp
qed

lemma mount_scale: "scale (mount pr) = 1"
  by (simp add: mount_def initial_def focusedChanged_def)

lemmas example_defs = flying_def falling_def swimming_def soaring_def journal_def online_def
  offline_def

lemma click_editedContent: "editedContent (click be pr t st) = editedContent st"
proof (cases t)
  case ZoomControl
  then show ?thesis
    using zoomClick_reads_inside [of "scale st"]
    by (auto simp: click_ZoomControl zoomClick_def Let_def)
next
  case SaveButton
  then show ?thesis
    by (simp add: click_SaveButton saveClick_def console_error_def Let_def split: outcome.split)
next
  case RegenerateButton
  then show ?thesis
    by (simp add: click_RegenerateButton regenerateClick_def console_error_def Let_def
          split: outcome.split)
qed (simp_all add: click_simps onClose_def onNavigate_def editClick_def)

lemma step_seeded:
  assumes "\<forall>v. e \<noteq> Type v"
    and "editedContent (snd s) = content (focusedDream (fst s))"
  shows "editedContent (snd (step be e s)) = content (focusedDream (fst (step be e s)))"
proof (cases s)
  case (Pair pr st)
  show ?thesis
  proof (cases e)
    case (Click t)
    then show ?thesis using assms(2) Pair by (simp add: click_editedContent)
  next
    case (Wheel deltaY)
    then show ?thesis using assms(2) Pair by (simp add: wheel_def handleWheel_def Let_def)
  next
    case (Type v)
    then show ?thesis using assms(1) by simp
  next
    case (NewProps pr')
    then show ?thesis using assms(2) Pair by (simp add: focusedChanged_def)
  qed
qed

lemma run_seeded:
  "\<forall>v. Type v \<notin> set es \<Longrightarrow> editedContent (snd s) = content (focusedDream (fst s)) \<Longrightarrow>
   editedContent (snd (run be es s)) = content (focusedDream (fst (run be es s)))"
proof (induction es arbitrary: s)
  case Nil
  then show ?case by simp
next
  case (Cons e es)
  have "\<forall>v. e \<noteq> Type v" using Cons.prems(1) by auto
  then have "editedContent (snd (step be e s)) = content (focusedDream (fst (step be e s)))"
    using Cons.prems(2) by (rule step_seeded)
  moreover have "\<forall>v. Type v \<notin> set es" using Cons.prems(1) by auto
  ultimately show ?case using Cons.IH by simp
qed

lemma click_closes:
  "closes (click be pr t st) =
     (if t \<in> {Backdrop, ToolbarsContainer, MainToolbar} then closes st + 1 else closes st)"
proof (cases t)
  case ZoomControl
  then show ?thesis
    using zoomClick_reads_inside [of "scale st"]
    by (auto simp: click_ZoomControl zoomClick_def Let_def)
next
  case SaveButton
  then show ?thesis
    by (simp add: click_SaveButton saveClick_def console_error_def Let_def split: outcome.split)
next
  case RegenerateButton
  then show ?thesis
    by (simp add: click_RegenerateButton regenerateClick_def console_error_def Let_def
          split: outcome.split)
qed (simp_all add: click_simps onClose_def onNavigate_def editClick_def)

section \<open>Pending records\<close>

text \<open>
  Claim C1. For a record whose status is pending, the card and the focused view both
  render the loading indicator, and neither renders an element that shows the record's
  story or title. (The toolbar of the focused view consists of \<open>control\<close>s, which carry
  no text of the record.)
\<close>

theorem pending_shows_loading_only:
  assumes "status d = Some Pending"
  shows "LoadingIndicator \<in> set (DreamCard d) \<and>
         (\<forall>e\<in>set (DreamCard d). \<not> is_narrative e) \<and>
         (focusedDream pr = d \<longrightarrow>
            LoadingIndicator \<in> set (FocusedDreamView pr st) \<and>
            (\<forall>e\<in>set (FocusedDreamView pr st). \<not> is_narrative e))"
  using assms by (simp add: DreamCard_def FocusedDreamView_def)

theorem pending_shows_loading_only_witness:
  "status swimming = Some Pending \<and> story swimming = Some ''The sea was warm.'' \<and>
   DreamCard swimming = [Notice ''< Dream'', LoadingIndicator] \<and>
   FocusedDreamView (journal swimming) (mount (journal swimming)) = [LoadingIndicator]"
proof -
  have p: "status swimming = Some Pending" by (simp add: swimming_def)
  have "DreamCard swimming = [Notice ''< Dream'', LoadingIndicator]"
    by (simp add: DreamCard_def swimming_def)
  moreover have "FocusedDreamView (journal swimming) (mount (journal swimming)) = [LoadingIndicator]"
    by (simp add: FocusedDreamView_def journal_def swimming_def)
  ultimately show ?thesis
    using pending_shows_loading_only [OF p, of "journal swimming" "mount (journal swimming)"]
    by (simp add: swimming_def)
qed

section \<open>Navigation buttons\<close>

text \<open>
  Claim C2 as stated fails in two places, both for the "next" button. With an empty list
  \<open>currentIndex\<close> is -1, which equals \<open>length - 1\<close>, so "next" is disabled although
  the list has no last index. With a list that holds the focused identifier twice,
  \<open>findIndex\<close> stops at the first occurrence, so "next" stays enabled although the
  focused record is at the last index.
\<close>

theorem navigation_disabled_counterexample:
  "disabled \<lparr>focusedDream = flying, allDreams = []\<rparr> NextButton \<and>
   \<not> focused_at \<lparr>focusedDream = flying, allDreams = []\<rparr> (int (length ([] :: dream list)) - 1) \<and>
   \<not> disabled \<lparr>focusedDream = flying, allDreams = [flying, flying]\<rparr> NextButton \<and>
   focused_at \<lparr>focusedDream = flying, allDreams = [flying, flying]\<rparr>
     (int (length [flying, flying]) - 1)"
  by (simp add: isLast_def currentIndex_def findIndex_def focused_at_def js_at_def)

text \<open>
  Claim C2, amended. For every focused record and every list, "previous" is disabled if
  and only if the focused record is at index 0. For every non-empty list whose records
  have pairwise distinct identifiers, "next" is disabled if and only if the focused record
  is at the last index. Both flags are what the toolbar renders.
\<close>

theorem navigation_disabled:
  "(disabled pr PrevButton \<longleftrightarrow> focused_at pr 0) \<and>
   (allDreams pr \<noteq> [] \<and> distinct (map dream_id (allDreams pr)) \<longrightarrow>
      (disabled pr NextButton \<longleftrightarrow> focused_at pr (int (length (allDreams pr)) - 1))) \<and>
   Button PrevButton (disabled pr PrevButton) \<in> set (toolbar pr st) \<and>
   Button NextButton (disabled pr NextButton) \<in> set (toolbar pr st)"
  using prev_disabled_iff [of pr] next_disabled_iff [of pr] by (simp add: toolbar_def)

theorem navigation_disabled_witness:
  "allDreams (journal falling) \<noteq> [] \<and> distinct (map dream_id (allDreams (journal falling))) \<and>
   \<not> disabled (journal falling) PrevButton \<and> \<not> disabled (journal falling) NextButton \<and>
   disabled (journal flying) PrevButton \<and> \<not> disabled (journal flying) NextButton \<and>
   \<not> disabled (journal swimming) PrevButton \<and> disabled (journal swimming) NextButton"
proof -
  have d: "\<And>x. allDreams (journal x) \<noteq> [] \<and> distinct (map dream_id (allDreams (journal x)))"
    by (simp add: example_defs)
  have at: "\<not> focused_at (journal falling) 0" "\<not> focused_at (journal falling) 2"
    "focused_at (journal flying) 0" "\<not> focused_at (journal flying) 2"
    "\<not> focused_at (journal swimming) 0" "focused_at (journal swimming) 2"
    by (simp_all add: focused_at_def js_at_def example_defs)
  have len: "\<And>x. int (length (allDreams (journal x))) - 1 = 2" by (simp add: journal_def)
  show ?thesis
    using navigation_disabled [of "journal falling"] navigation_disabled [of "journal flying"]
      navigation_disabled [of "journal swimming"] d at by (simp add: len)
qed

section \<open>Zoom\<close>

text \<open>
  Claim C3 as stated fails where it says that each click on the zoom control moves the
  scale to the next preset. One wheel-up event from the mounted state leaves the scale at
  the binary64 number 1.15, between the presets 1 and 1.5, and a click there goes to 0.5.
  A wheel-up event followed by a wheel-down event leaves it at 0.9999999999999999, not
  at the preset 1, and a click there goes to 0.5 as well, with the label 50.
\<close>

theorem zoom_click_next_preset_counterexample:
  "scale (wheel (- 120) (mount (journal flying))) = 5179139571476070 / 2 ^ 52 \<and>
   scale (wheel (- 120) (mount (journal flying))) \<notin> set ZOOM_LEVELS \<and>
   scale (click online (journal flying) ZoomControl (wheel (- 120) (mount (journal flying))))
     = 0.5 \<and>
   scale (wheel 120 (wheel (- 120) (mount (journal flying)))) = 1 - 1 / 2 ^ 53 \<and>
   scale (wheel 120 (wheel (- 120) (mount (journal flying)))) \<notin> set ZOOM_LEVELS \<and>
   scale (click online (journal flying) ZoomControl
            (wheel 120 (wheel (- 120) (mount (journal flying))))) = 0.5 \<and>
   zoomPercentage (click online (journal flying) ZoomControl
            (wheel 120 (wheel (- 120) (mount (journal flying))))) = 50"
proof -
  let ?up = "wheel (- 120) (mount (journal flying))"
  let ?down = "wheel 120 ?up"
  have "scale ?up = max (1/2) (min (5/2) (binary64 (scale (mount (journal flying)) + SCROLL_SENSITIVITY)))"
    by (rule wheel_up_scale) simp
  then have up: "scale ?up = 5179139571476070 / 2 ^ 52"
    by (simp only: mount_scale wheel_up_from_1) simp
  have "scale ?down = max (1/2) (min (5/2) (binary64 (scale ?up - SCROLL_SENSITIVITY)))"
    by (rule wheel_down_scale) simp
  then have down: "scale ?down = 1 - 1 / 2 ^ 53"
    by (simp only: up wheel_down_after_up) simp
  have nu: "scale ?up \<notin> set ZOOM_LEVELS" unfolding up by (simp add: ZOOM_LEVELS_def)
  have nd: "scale ?down \<notin> set ZOOM_LEVELS" unfolding down by (simp add: ZOOM_LEVELS_def)
  have ne: "scale st \<notin> set ZOOM_LEVELS \<Longrightarrow>
      scale (click online (journal flying) ZoomControl st) = 0.5 \<and>
      zoomPercentage (click online (journal flying) ZoomControl st) = 50" for st
    by (simp add: click_ZoomControl zoomClick_scale zoomClick_percentage ZOOM_LEVELS_def)
  show ?thesis using up down nu nd ne [OF nu] ne [OF nd] by simp
qed

text \<open>
  Claim C3, amended. The scale is 1 after mounting; after any sequence of events it lies
  in [0.5, 2.5]; a wheel event and a click on the zoom control lead into that interval
  from any state. A click on the zoom control at a scale that is one of the presets moves
  the scale to the next preset, and from the last preset 2.5 back to 0.5; at any other
  scale it sets the scale to 0.5.
\<close>

theorem zoom_scale_invariant:
  "scale (mount pr) = 1 \<and>
   (\<forall>es. 0.5 \<le> scale (snd (run be es (pr, mount pr))) \<and>
         scale (snd (run be es (pr, mount pr))) \<le> 2.5) \<and>
   0.5 \<le> scale (wheel deltaY st) \<and> scale (wheel deltaY st) \<le> 2.5 \<and>
   0.5 \<le> scale (click be pr ZoomControl st) \<and> scale (click be pr ZoomControl st) \<le> 2.5 \<and>
   (\<forall>i < length ZOOM_LEVELS. scale st = ZOOM_LEVELS ! i \<longrightarrow>
      scale (click be pr ZoomControl st) = ZOOM_LEVELS ! ((i + 1) mod length ZOOM_LEVELS)) \<and>
   (scale st = 2.5 \<longrightarrow> scale (click be pr ZoomControl st) = 0.5) \<and>
   (scale st \<notin> set ZOOM_LEVELS \<longrightarrow> scale (click be pr ZoomControl st) = 0.5)"
proof -
  have inv: "\<forall>es. 0.5 \<le> scale (snd (run be es (pr, mount pr))) \<and>
         scale (snd (run be es (pr, mount pr))) \<le> 2.5"
    using run_scale_range [of "(pr, mount pr)" be] by (simp add: mount_scale)
  have w: "0.5 \<le> scale (wheel deltaY st) \<and> scale (wheel deltaY st) \<le> 2.5"
    using clamp_range by (simp add: wheel_scale)
  have c: "0.5 \<le> scale (click be pr ZoomControl st) \<and> scale (click be pr ZoomControl st) \<le> 2.5"
    by (simp add: click_ZoomControl zoomClick_scale)
  have cyc: "\<forall>i < length ZOOM_LEVELS. scale st = ZOOM_LEVELS ! i \<longrightarrow>
      scale (click be pr ZoomControl st) = ZOOM_LEVELS ! ((i + 1) mod length ZOOM_LEVELS)"
  proof (intro allI impI)
    fix i assume "i < length ZOOM_LEVELS" and s: "scale st = ZOOM_LEVELS ! i"
    then have "i \<in> {0, 1, 2, 3, 4}" by (auto simp: ZOOM_LEVELS_def)
    then show "scale (click be pr ZoomControl st) = ZOOM_LEVELS ! ((i + 1) mod length ZOOM_LEVELS)"
      using s by (auto simp: click_ZoomControl zoomClick_scale ZOOM_LEVELS_def)
  qed
  have wrap: "scale st = 2.5 \<longrightarrow> scale (click be pr ZoomControl st) = 0.5"
    by (simp add: click_ZoomControl zoomClick_scale)
  have off: "scale st \<notin> set ZOOM_LEVELS \<longrightarrow> scale (click be pr ZoomControl st) = 0.5"
    by (simp add: click_ZoomControl zoomClick_scale ZOOM_LEVELS_def)
  show ?thesis using inv w c cyc wrap off mount_scale by blast
qed

theorem zoom_scale_invariant_witness:
  "(4::nat) < length ZOOM_LEVELS \<and> ZOOM_LEVELS ! 4 = 2.5 \<and> ZOOM_LEVELS ! ((4 + 1) mod 5) = 0.5 \<and>
   scale (click online (journal flying) ZoomControl (mount (journal flying)\<lparr>scale := 2.5\<rparr>)) = 0.5 \<and>
   scale (mount (journal flying)\<lparr>scale := 1.25\<rparr>) \<notin> set ZOOM_LEVELS \<and>
   scale (click online (journal flying) ZoomControl (mount (journal flying)\<lparr>scale := 1.25\<rparr>)) = 0.5 \<and>
   scale (snd (run online [Click ZoomControl, Click EditButton, Click ZoomControl]
                 (journal flying, mount (journal flying)))) = 2 \<and>
   0.5 \<le> scale (snd (run online [Wheel 3, Click ZoomControl, Wheel (- 3), Wheel (- 3)]
                 (journal flying, mount (journal flying))))"
proof -
  let ?m = "mount (journal flying)"
  have z: "(4::nat) < length ZOOM_LEVELS \<and> ZOOM_LEVELS ! 4 = 2.5 \<and>
      ZOOM_LEVELS ! ((4 + 1) mod 5) = 0.5"
    by (simp add: ZOOM_LEVELS_def)
  have "scale (click online (journal flying) ZoomControl (?m\<lparr>scale := 2.5\<rparr>)) = 0.5"
    using zoom_scale_invariant [of "journal flying" online 3 "?m\<lparr>scale := 2.5\<rparr>"] by simp
  moreover have n: "scale (?m\<lparr>scale := 1.25\<rparr>) \<notin> set ZOOM_LEVELS"
    by (simp add: ZOOM_LEVELS_def)
  moreover have "scale (click online (journal flying) ZoomControl (?m\<lparr>scale := 1.25\<rparr>)) = 0.5"
    using zoom_scale_invariant [of "journal flying" online 3 "?m\<lparr>scale := 1.25\<rparr>"] n
    by simp
  moreover have "scale (snd (run online [Click ZoomControl, Click EditButton, Click ZoomControl]
                 (journal flying, ?m))) = 2"
    by (simp add: click_ZoomControl click_EditButton editClick_def zoomClick_scale mount_scale)
  moreover have "0.5 \<le> scale (snd (run online
      [Wheel 3, Click ZoomControl, Wheel (- 3), Wheel (- 3)] (journal flying, ?m)))"
    using zoom_scale_invariant [of "journal flying" online 3 ?m] by blast
  ultimately show ?thesis using z by simp
qed

text \<open>
  Claim C4 as stated fails where it says that a wheel event changes the scale by exactly
  0.15. From the mounted scale 1, a wheel-up event gives the binary64 number 1.15, which
  is not 1 + 0.15, and a wheel-down event from there gives 0.9999999999999999, which is
  not 1.15 - 0.15 and not the scale 1 the two events started from. Neither result is
  clamped.
\<close>

theorem wheel_exact_step_counterexample:
  "scale (mount (journal flying)) = 1 \<and>
   scale (wheel (- 120) (mount (journal flying))) = 5179139571476070 / 2 ^ 52 \<and>
   scale (wheel (- 120) (mount (journal flying))) - scale (mount (journal flying)) \<noteq> 0.15 \<and>
   scale (wheel 120 (wheel (- 120) (mount (journal flying)))) = 1 - 1 / 2 ^ 53 \<and>
   scale (wheel (- 120) (mount (journal flying))) -
     scale (wheel 120 (wheel (- 120) (mount (journal flying)))) \<noteq> 0.15 \<and>
   scale (wheel 120 (wheel (- 120) (mount (journal flying)))) \<noteq> scale (mount (journal flying)) \<and>
   zoomPercentage (wheel 120 (wheel (- 120) (mount (journal flying)))) = 100"
proof -
  let ?m = "mount (journal flying)"
  let ?up = "wheel (- 120) ?m"
  let ?down = "wheel 120 ?up"
  have "scale ?up = max (1/2) (min (5/2) (binary64 (scale ?m + SCROLL_SENSITIVITY)))"
    by (rule wheel_up_scale) simp
  then have up: "scale ?up = 5179139571476070 / 2 ^ 52"
    by (simp only: mount_scale wheel_up_from_1) simp
  have "scale ?down = max (1/2) (min (5/2) (binary64 (scale ?up - SCROLL_SENSITIVITY)))"
    by (rule wheel_down_scale) simp
  then have down: "scale ?down = 1 - 1 / 2 ^ 53"
    by (simp only: up wheel_down_after_up) simp
  have "zoomPercentage ?down = Math_round (binary64 (scale ?down * 100))"
    by (rule wheel_percentage)
  then have pct: "zoomPercentage ?down = 100"
    by (simp only: down percent_after_up_down) (simp add: Math_round_def)
  show ?thesis unfolding up down pct mount_scale by simp
qed

text \<open>
  Claim C4, amended. A wheel-down event (\<open>deltaY > 0\<close>) sets the scale to the binary64
  result of \<open>scale - 0.15\<close> and a wheel-up event (\<open>deltaY < 0\<close>) to that of
  \<open>scale + 0.15\<close>, where 0.15 is the binary64 number nearest to 0.15 and the sum is
  rounded to the nearest binary64 number, the result clamped to [0.5, 2.5]. From a scale
  within the bounds the result is within \<open>2^-51\<close> of the exact value, clamped. The label
  is the rounded product of the new scale and 100. From the mounted state, whose scale is
  1, one click on the zoom control gives scale 1.5 and the label 150.
\<close>

theorem wheel_step_and_first_click:
  "(0 < deltaY \<longrightarrow>
      scale (wheel deltaY st) = max 0.5 (min 2.5 (binary64 (scale st - binary64 0.15)))) \<and>
   (deltaY < 0 \<longrightarrow>
      scale (wheel deltaY st) = max 0.5 (min 2.5 (binary64 (scale st + binary64 0.15)))) \<and>
   (0 < deltaY \<and> 0.5 \<le> scale st \<and> scale st \<le> 2.5 \<longrightarrow>
      \<bar>scale (wheel deltaY st) - max 0.5 (min 2.5 (scale st - 0.15))\<bar> \<le> 1 / 2 ^ 51) \<and>
   (deltaY < 0 \<and> 0.5 \<le> scale st \<and> scale st \<le> 2.5 \<longrightarrow>
      \<bar>scale (wheel deltaY st) - max 0.5 (min 2.5 (scale st + 0.15))\<bar> \<le> 1 / 2 ^ 51) \<and>
   \<bar>binary64 0.15 - 0.15\<bar> \<le> 1 / 2 ^ 57 \<and>
   zoomPercentage (wheel deltaY st) = Math_round (binary64 (scale (wheel deltaY st) * 100)) \<and>
   scale (mount pr) = 1 \<and>
   scale (click be pr ZoomControl (mount pr)) = 1.5 \<and>
   zoomPercentage (click be pr ZoomControl (mount pr)) = 150 \<and>
   ZoomLabel 150 \<in> set (toolbar pr (click be pr ZoomControl (mount pr)))"
proof -
  have pct: "zoomPercentage (click be pr ZoomControl (mount pr)) = 150"
    by (simp add: click_ZoomControl zoomClick_percentage mount_scale)
  have w: "zoomPercentage (wheel deltaY st) = Math_round (binary64 (scale (wheel deltaY st) * 100))"
    by (rule wheel_percentage)
  have lit: "\<bar>binary64 0.15 - 0.15\<bar> \<le> 1 / 2 ^ 57"
    using SCROLL_SENSITIVITY_error by (simp add: SCROLL_SENSITIVITY_def)
  have "scale (click be pr ZoomControl (mount pr)) = 1.5"
    by (simp add: click_ZoomControl zoomClick_scale mount_scale)
  moreover have "ZoomLabel 150 \<in> set (toolbar pr (click be pr ZoomControl (mount pr)))"
    using pct by (simp add: toolbar_def)
  moreover have "0 < deltaY \<longrightarrow>
      scale (wheel deltaY st) = max 0.5 (min 2.5 (binary64 (scale st - binary64 0.15)))"
    using wheel_down_scale [of deltaY st] by (simp add: SCROLL_SENSITIVITY_def)
  moreover have "deltaY < 0 \<longrightarrow>
      scale (wheel deltaY st) = max 0.5 (min 2.5 (binary64 (scale st + binary64 0.15)))"
    using wheel_up_scale [of deltaY st] by (simp add: SCROLL_SENSITIVITY_def)
  moreover have "0 < deltaY \<and> 0.5 \<le> scale st \<and> scale st \<le> 2.5 \<longrightarrow>
      \<bar>scale (wheel deltaY st) - max 0.5 (min 2.5 (scale st - 0.15))\<bar> \<le> 1 / 2 ^ 51"
    by (intro impI, elim conjE) (rule wheel_down_error)
  moreover have "deltaY < 0 \<and> 0.5 \<le> scale st \<and> scale st \<le> 2.5 \<longrightarrow>
      \<bar>scale (wheel deltaY st) - max 0.5 (min 2.5 (scale st + 0.15))\<bar> \<le> 1 / 2 ^ 51"
    by (intro impI, elim conjE) (rule wheel_up_error)
  ultimately show ?thesis using pct w lit mount_scale by blast
qed

theorem wheel_step_and_first_click_witness:
  "(0::real) < 120 \<and> (- 120 :: real) < 0 \<and>
   0.5 \<le> scale (mount (journal flying)) \<and> scale (mount (journal flying)) \<le> 2.5 \<and>
   scale (wheel 120 (mount (journal flying))) = 7656119366529843 / 2 ^ 53 \<and>
   scale (wheel (- 120) (mount (journal flying))) = 5179139571476070 / 2 ^ 52 \<and>
   \<bar>scale (wheel 120 (mount (journal flying))) - 0.85\<bar> \<le> 1 / 2 ^ 51 \<and>
   \<bar>scale (wheel (- 120) (mount (journal flying))) - 1.15\<bar> \<le> 1 / 2 ^ 51 \<and>
   zoomPercentage (click online (journal flying) ZoomControl (mount (journal flying))) = 150"
proof -
  let ?m = "mount (journal flying)"
  note t = wheel_step_and_first_click [of 120 ?m "journal flying" online]
    and u = wheel_step_and_first_click [of "- 120" ?m "journal flying" online]
  have m: "scale ?m = 1" by (rule mount_scale)
  have "scale (wheel 120 ?m) = max 0.5 (min 2.5 (binary64 (scale ?m - binary64 0.15)))"
    using t by simp
  then have down: "scale (wheel 120 ?m) = 7656119366529843 / 2 ^ 53"
    by (simp only: m SCROLL_SENSITIVITY_def [symmetric] wheel_down_from_1) simp
  have "scale (wheel (- 120) ?m) = max 0.5 (min 2.5 (binary64 (scale ?m + binary64 0.15)))"
    using u by simp
  then have up: "scale (wheel (- 120) ?m) = 5179139571476070 / 2 ^ 52"
    by (simp only: m SCROLL_SENSITIVITY_def [symmetric] wheel_up_from_1) simp
  have "zoomPercentage (click online (journal flying) ZoomControl ?m) = 150"
    using t by simp
  then show ?thesis unfolding up down m by simp
qed

section \<open>Clicking the zoom control off a preset\<close>

text \<open>
  Claim C10. When the scale is not one of the presets, \<open>indexOf\<close> returns -1, the next
  index is 0, and a click on the zoom control sets the scale to 0.5 (label 50).
\<close>

theorem off_preset_click_snaps_to_first:
  assumes "scale st \<notin> set ZOOM_LEVELS"
  shows "indexOf ZOOM_LEVELS (scale st) = - 1 \<and>
         js_rem (indexOf ZOOM_LEVELS (scale st) + 1) (int (length ZOOM_LEVELS)) = 0 \<and>
         scale (click be pr ZoomControl st) = 0.5 \<and>
         zoomPercentage (click be pr ZoomControl st) = 50"
proof -
  have ne: "scale st \<noteq> 1/2" "scale st \<noteq> 1" "scale st \<noteq> 3/2" "scale st \<noteq> 2" "scale st \<noteq> 5/2"
    using assms by (simp_all add: ZOOM_LEVELS_def)
  have i: "indexOf ZOOM_LEVELS (scale st) = - 1"
    using ne by (simp add: indexOf_ZOOM_LEVELS)
  have s: "scale (click be pr ZoomControl st) = 0.5"
    using ne by (simp add: click_ZoomControl zoomClick_scale)
  have "zoomPercentage (click be pr ZoomControl st) = 50"
    using ne by (simp add: click_ZoomControl zoomClick_percentage)
  then show ?thesis using i s by (simp add: js_rem_def)
qed

theorem off_preset_click_snaps_to_first_witness:
  "scale (wheel (- 120) (mount (journal flying))) = 5179139571476070 / 2 ^ 52 \<and>
   scale (wheel (- 120) (mount (journal flying))) \<notin> set ZOOM_LEVELS \<and>
   scale (click online (journal flying) ZoomControl (wheel (- 120) (mount (journal flying)))) = 0.5"
proof -
  have "scale (wheel (- 120) (mount (journal flying))) =
      max (1/2) (min (5/2) (binary64 (scale (mount (journal flying)) + SCROLL_SENSITIVITY)))"
    by (rule wheel_up_scale) simp
  then have w: "scale (wheel (- 120) (mount (journal flying))) = 5179139571476070 / 2 ^ 52"
    by (simp only: mount_scale wheel_up_from_1) simp
  have n: "scale (wheel (- 120) (mount (journal flying))) \<notin> set ZOOM_LEVELS"
    unfolding w by (simp add: ZOOM_LEVELS_def)
  show ?thesis
    using off_preset_click_snaps_to_first [OF n, of online "journal flying"] w n by simp
qed

section \<open>Saving and regenerating\<close>

text \<open>
  Claim C5. In edit mode, a click on the save button calls the mutation once, with the
  focused record's identifier and the edited content. Edit mode is left if and only if
  the mutation succeeds. When it fails (by throwing or by rejecting), one diagnostic is
  logged and edit mode stays active. The edited content and the rest of the view state
  are unchanged in either case.
\<close>

theorem save_click:
  assumes "isEditing st"
  shows "calls (click be pr SaveButton st) =
           calls st @ [UpdateDreamContent (dream_id (focusedDream pr)) (editedContent st)] \<and>
         (\<not> isEditing (click be pr SaveButton st) \<longleftrightarrow>
            updateDreamContent be (dream_id (focusedDream pr)) (editedContent st) = Resolves) \<and>
         (updateDreamContent be (dream_id (focusedDream pr)) (editedContent st) = Resolves \<longrightarrow>
            console (click be pr SaveButton st) = console st) \<and>
         (\<forall>error. updateDreamContent be (dream_id (focusedDream pr)) (editedContent st)
                    \<in> {Rejects error, Throws error} \<longrightarrow>
            console (click be pr SaveButton st) =
              console st @ [''Failed to save dream: '' @ error] \<and>
            isEditing (click be pr SaveButton st)) \<and>
         editedContent (click be pr SaveButton st) = editedContent st \<and>
         scale (click be pr SaveButton st) = scale st \<and>
         zoomPercentage (click be pr SaveButton st) = zoomPercentage st \<and>
         closes (click be pr SaveButton st) = closes st \<and>
         navigations (click be pr SaveButton st) = navigations st \<and>
         unhandled (click be pr SaveButton st) = unhandled st"
  using assms
  by (cases "updateDreamContent be (dream_id (focusedDream pr)) (editedContent st)")
     (simp_all add: click_SaveButton saveClick_def console_error_def Let_def)

theorem save_click_witness:
  "isEditing (snd (run offline [Click EditButton, Type ''I was gliding''] (journal flying, mount (journal flying)))) \<and>
   snd (run offline [Click EditButton, Type ''I was gliding'', Click SaveButton]
          (journal flying, mount (journal flying))) =
     (mount (journal flying))
       \<lparr>isEditing := True, editedContent := ''I was gliding'',
        calls := [UpdateDreamContent ''d1'' ''I was gliding''],
        console := [''Failed to save dream: offline'']\<rparr> \<and>
   snd (run online [Click EditButton, Type ''I was gliding'', Click SaveButton]
          (journal flying, mount (journal flying))) =
     (mount (journal flying))
       \<lparr>isEditing := False, editedContent := ''I was gliding'',
        calls := [UpdateDreamContent ''d1'' ''I was gliding'']\<rparr>"
proof -
  let ?m = "mount (journal flying)"
  let ?st = "?m\<lparr>isEditing := True, editedContent := ''I was gliding''\<rparr>"
  have r: "\<And>be. run be [Click EditButton, Type ''I was gliding''] (journal flying, ?m) = (journal flying, ?st)"
    by (simp add: click_EditButton editClick_def mount_def focusedChanged_def initial_def example_defs)
  have e: "isEditing ?st" by simp
  have r3: "\<And>be. run be [Click EditButton, Type ''I was gliding'', Click SaveButton] (journal flying, ?m)
        = (journal flying, click be (journal flying) SaveButton ?st)"
    by (simp add: click_EditButton editClick_def mount_def focusedChanged_def initial_def example_defs)
  have off: "click offline (journal flying) SaveButton ?st =
     ?m\<lparr>isEditing := True, editedContent := ''I was gliding'',
        calls := [UpdateDreamContent ''d1'' ''I was gliding''],
        console := [''Failed to save dream: offline'']\<rparr>"
    using save_click [OF e, of offline "journal flying"]
    by (simp add: click_SaveButton saveClick_def console_error_def mount_def focusedChanged_def initial_def example_defs)
  have on: "click online (journal flying) SaveButton ?st =
     ?m\<lparr>isEditing := False, editedContent := ''I was gliding'',
        calls := [UpdateDreamContent ''d1'' ''I was gliding'']\<rparr>"
    using save_click [OF e, of online "journal flying"]
    by (simp add: click_SaveButton saveClick_def console_error_def mount_def focusedChanged_def initial_def example_defs)
  show ?thesis using e by (simp only: r r3 off on snd_conv simp_thms)
qed

text \<open>
  What the regenerate button does in every case: one call of the generation action with
  the focused record's identifier, and edit mode is off afterwards.
\<close>

lemma regenerate_click:
  "calls (click be pr RegenerateButton st) = calls st @ [GenerateStory (dream_id (focusedDream pr))] \<and>
   \<not> isEditing (click be pr RegenerateButton st) \<and>
   editedContent (click be pr RegenerateButton st) = editedContent st \<and>
   closes (click be pr RegenerateButton st) = closes st"
  by (cases "generateStory be (dream_id (focusedDream pr))")
     (simp_all add: click_RegenerateButton regenerateClick_def console_error_def Let_def)

text \<open>
  The two ways the generation action can fail: a throw is caught and logged; a rejection
  of the returned promise is not, because the call is not awaited.
\<close>

lemma regenerate_click_failure:
  "(generateStory be (dream_id (focusedDream pr)) = Throws error \<longrightarrow>
      console (click be pr RegenerateButton st) =
        console st @ [''Failed to trigger story regeneration: '' @ error] \<and>
      unhandled (click be pr RegenerateButton st) = unhandled st) \<and>
   (generateStory be (dream_id (focusedDream pr)) = Rejects error \<longrightarrow>
      console (click be pr RegenerateButton st) = console st \<and>
      unhandled (click be pr RegenerateButton st) = unhandled st @ [error])"
  by (simp add: click_RegenerateButton regenerateClick_def console_error_def Let_def)

text \<open>
  Claim C6 says that a failure of the generation action is captured locally and logged.
  With a backend whose generation action returns a promise that rejects, a click on the
  regenerate button of a freshly mounted view logs nothing and leaves the rejection
  unhandled; the action is called with the focused record's identifier.
\<close>

theorem regenerate_rejection_not_logged:
  "generateStory offline (dream_id (focusedDream (journal flying))) = Rejects ''offline'' \<and>
   click offline (journal flying) RegenerateButton (mount (journal flying)) =
     (mount (journal flying))\<lparr>calls := [GenerateStory ''d1''], unhandled := [''offline'']\<rparr> \<and>
   console (click offline (journal flying) RegenerateButton (mount (journal flying))) = []"
  by (simp add: click_RegenerateButton regenerateClick_def mount_def focusedChanged_def initial_def example_defs)

section \<open>The edit field\<close>

text \<open>
  Claim C7 as stated fails: toggle edit mode on, type, toggle it off, toggle it on
  again. The field then shows what was typed, not the record's content.
\<close>

theorem edit_field_seed_counterexample:
  "snd (run online [Click EditButton, Type ''I was gliding'', Click EditButton, Click EditButton]
          (journal flying, mount (journal flying))) =
     (mount (journal flying))\<lparr>isEditing := True, editedContent := ''I was gliding''\<rparr> \<and>
   FocusedDreamView (journal flying)
     (snd (run online [Click EditButton, Type ''I was gliding'', Click EditButton, Click EditButton]
            (journal flying, mount (journal flying)))) =
     [TitleText ''Flight'', ContentField ''I was gliding'', Notice ''Generated Story:'',
      StoryText ''A bird rose.''] \<and>
   content (focusedDream (journal flying)) = ''I was flying''"
  by (simp add: click_EditButton editClick_def mount_def focusedChanged_def initial_def
        FocusedDreamView_def example_defs)

text \<open>
  Claim C7, amended. The edit buffer is set to the record's content, and edit mode is
  left, on mount and whenever the parent passes a focused record whose content or
  identifier differs from the one before; new properties with the same content and
  identifier change nothing. The edit button toggles edit mode and changes nothing else.
  Hence when edit mode is toggled on and nothing has been typed since the buffer was last
  set, the field's value equals the record's current content.
\<close>

theorem edit_field_seed:
  "editedContent (mount pr) = content (focusedDream pr) \<and> \<not> isEditing (mount pr) \<and>
   (content (focusedDream pr') \<noteq> content (focusedDream pr) \<or>
    dream_id (focusedDream pr') \<noteq> dream_id (focusedDream pr) \<longrightarrow>
      step be (NewProps pr') (pr, st) =
        (pr', st\<lparr>editedContent := content (focusedDream pr'), isEditing := False\<rparr>)) \<and>
   (content (focusedDream pr') = content (focusedDream pr) \<and>
    dream_id (focusedDream pr') = dream_id (focusedDream pr) \<longrightarrow>
      step be (NewProps pr') (pr, st) = (pr', st)) \<and>
   click be pr EditButton st = st\<lparr>isEditing := \<not> isEditing st\<rparr> \<and>
   ((\<forall>v. Type v \<notin> set es) \<and> editedContent st = content (focusedDream pr) \<and>
    run be es (pr, st) = (prn, stn) \<and> \<not> isEditing stn \<longrightarrow>
      isEditing (click be prn EditButton stn) \<and>
      editedContent (click be prn EditButton stn) = content (focusedDream prn) \<and>
      (status (focusedDream prn) \<noteq> Some Pending \<longrightarrow>
         ContentField (content (focusedDream prn)) \<in>
           set (FocusedDreamView prn (click be prn EditButton stn))))"
proof -
  have m: "editedContent (mount pr) = content (focusedDream pr) \<and> \<not> isEditing (mount pr)"
    by (simp add: mount_def focusedChanged_def)
  have changed: "content (focusedDream pr') \<noteq> content (focusedDream pr) \<or>
    dream_id (focusedDream pr') \<noteq> dream_id (focusedDream pr) \<longrightarrow>
      step be (NewProps pr') (pr, st) =
        (pr', st\<lparr>editedContent := content (focusedDream pr'), isEditing := False\<rparr>)"
    by (auto simp: focusedChanged_def)
  have same: "content (focusedDream pr') = content (focusedDream pr) \<and>
    dream_id (focusedDream pr') = dream_id (focusedDream pr) \<longrightarrow>
      step be (NewProps pr') (pr, st) = (pr', st)"
    by simp
  have t: "click be pr EditButton st = st\<lparr>isEditing := \<not> isEditing st\<rparr>"
    by (simp add: click_EditButton editClick_def)
  have seeded: "(\<forall>v. Type v \<notin> set es) \<and> editedContent st = content (focusedDream pr) \<and>
    run be es (pr, st) = (prn, stn) \<and> \<not> isEditing stn \<longrightarrow>
      isEditing (click be prn EditButton stn) \<and>
      editedContent (click be prn EditButton stn) = content (focusedDream prn) \<and>
      (status (focusedDream prn) \<noteq> Some Pending \<longrightarrow>
         ContentField (content (focusedDream prn)) \<in>
           set (FocusedDreamView prn (click be prn EditButton stn)))"
  proof (intro impI, elim conjE)
    assume nt: "\<forall>v. Type v \<notin> set es" and r: "run be es (pr, st) = (prn, stn)"
      and sd: "editedContent st = content (focusedDream pr)"
      and ne: "\<not> isEditing stn"
    have "editedContent stn = content (focusedDream prn)"
      using run_seeded [OF nt, of "(pr, st)" be] sd r by simp
    then have ec: "editedContent (click be prn EditButton stn) = content (focusedDream prn)"
      by (simp add: click_editedContent)
    have ie: "isEditing (click be prn EditButton stn)"
      using ne by (simp add: click_EditButton editClick_def)
    show "isEditing (click be prn EditButton stn) \<and>
      editedContent (click be prn EditButton stn) = content (focusedDream prn) \<and>
      (status (focusedDream prn) \<noteq> Some Pending \<longrightarrow>
         ContentField (content (focusedDream prn)) \<in>
           set (FocusedDreamView prn (click be prn EditButton stn)))"
      using ec ie by (simp add: FocusedDreamView_def Let_def)
  qed
  show ?thesis using m changed same t seeded by blast
qed

theorem edit_field_seed_witness:
  "content (focusedDream (journal soaring)) = content (focusedDream (journal flying)) \<and>
   dream_id (focusedDream (journal soaring)) \<noteq> dream_id (focusedDream (journal flying)) \<and>
   step online (NewProps (journal soaring))
     (journal flying,
      (mount (journal flying))\<lparr>isEditing := True, editedContent := ''I was gliding''\<rparr>) =
     (journal soaring, mount (journal flying)) \<and>
   step online (NewProps \<lparr>focusedDream = flying, allDreams = [flying]\<rparr>)
     (journal flying,
      (mount (journal flying))\<lparr>isEditing := True, editedContent := ''I was gliding''\<rparr>) =
     (\<lparr>focusedDream = flying, allDreams = [flying]\<rparr>,
      (mount (journal flying))\<lparr>isEditing := True, editedContent := ''I was gliding''\<rparr>) \<and>
   (\<forall>v. Type v \<notin> set [Click EditButton, Click CardContent, Click EditButton,
                        NewProps (journal falling)]) \<and>
   run online [Click EditButton, Click CardContent, Click EditButton, NewProps (journal falling)]
     (journal flying, mount (journal flying)) =
     (journal falling, mount (journal falling)) \<and>
   \<not> isEditing (mount (journal falling)) \<and>
   status (focusedDream (journal falling)) \<noteq> Some Pending \<and>
   ContentField ''I was falling'' \<in>
     set (FocusedDreamView (journal falling)
           (click online (journal falling) EditButton
              (mount (journal falling))))"
proof -
  let ?typed = "(mount (journal flying))\<lparr>isEditing := True, editedContent := ''I was gliding''\<rparr>"
  let ?alone = "\<lparr>focusedDream = flying, allDreams = [flying]\<rparr>"
  let ?es = "[Click EditButton, Click CardContent, Click EditButton, NewProps (journal falling)]"
  let ?st = "mount (journal falling)"
  have ids: "content (focusedDream (journal soaring)) = content (focusedDream (journal flying))"
    "dream_id (focusedDream (journal soaring)) \<noteq> dream_id (focusedDream (journal flying))"
    by (simp_all add: example_defs)
  have "step online (NewProps (journal soaring)) (journal flying, ?typed) =
      (journal soaring,
       ?typed\<lparr>editedContent := content (focusedDream (journal soaring)), isEditing := False\<rparr>)"
    using edit_field_seed [where pr = "journal flying" and pr' = "journal soaring"
        and st = ?typed and be = online] ids by blast
  moreover have "?typed\<lparr>editedContent := content (focusedDream (journal soaring)),
      isEditing := False\<rparr> = mount (journal flying)"
    by (simp add: mount_def focusedChanged_def initial_def example_defs)
  ultimately have reseed: "step online (NewProps (journal soaring)) (journal flying, ?typed) =
      (journal soaring, mount (journal flying))"
    by simp
  have sm: "content (focusedDream ?alone) = content (focusedDream (journal flying)) \<and>
      dream_id (focusedDream ?alone) = dream_id (focusedDream (journal flying))"
    by (simp add: example_defs)
  have keep: "step online (NewProps ?alone) (journal flying, ?typed) = (?alone, ?typed)"
    using edit_field_seed [where pr = "journal flying" and pr' = ?alone
        and st = ?typed and be = online] sm by blast
  have nt: "\<forall>v. Type v \<notin> set ?es" by simp
  have sd: "editedContent (mount (journal flying)) = content (focusedDream (journal flying))"
    by (simp add: mount_def focusedChanged_def)
  have r: "run online ?es (journal flying, mount (journal flying)) = (journal falling, ?st)"
    by (simp add: click_EditButton editClick_def click_CardContent mount_def
          focusedChanged_def initial_def example_defs)
  have ne: "\<not> isEditing ?st" by (simp add: mount_def focusedChanged_def)
  have np: "status (focusedDream (journal falling)) \<noteq> Some Pending"
    by (simp add: example_defs)
  have c: "content (focusedDream (journal falling)) = ''I was falling''"
    by (simp add: example_defs)
  have "(\<forall>v. Type v \<notin> set ?es) \<and>
      editedContent (mount (journal flying)) = content (focusedDream (journal flying)) \<and>
      run online ?es (journal flying, mount (journal flying)) = (journal falling, ?st) \<and>
      \<not> isEditing ?st \<longrightarrow>
        isEditing (click online (journal falling) EditButton ?st) \<and>
        editedContent (click online (journal falling) EditButton ?st) =
          content (focusedDream (journal falling)) \<and>
        (status (focusedDream (journal falling)) \<noteq> Some Pending \<longrightarrow>
           ContentField (content (focusedDream (journal falling))) \<in>
             set (FocusedDreamView (journal falling)
                   (click online (journal falling) EditButton ?st)))"
    using edit_field_seed [where pr = "journal flying" and pr' = "journal flying"
        and st = "mount (journal flying)" and be = online and es = ?es
        and prn = "journal falling" and stn = ?st]
    by blast
  then have "ContentField (content (focusedDream (journal falling))) \<in>
      set (FocusedDreamView (journal falling) (click online (journal falling) EditButton ?st))"
    using nt sd r ne np by blast
  then have field: "ContentField ''I was falling'' \<in>
      set (FocusedDreamView (journal falling) (click online (journal falling) EditButton ?st))"
    by (simp only: c)
  show ?thesis
    by (intro conjI ids reseed keep nt r ne np field)
qed

section \<open>Closing\<close>

text \<open>
  Claim C8 as stated fails in its second half: a click on the toolbar's own container
  (between or around the buttons) is not a click on the backdrop itself, and no handler
  on the way stops it, so it reaches the backdrop's handler and the close callback runs.
\<close>

theorem close_only_from_backdrop_counterexample:
  "closes (mount (journal flying)) = 0 \<and>
   closes (click online (journal flying) MainToolbar (mount (journal flying))) = 1"
  by (simp add: click_MainToolbar onClose_def mount_def focusedChanged_def initial_def)

text \<open>
  Claim C8, amended. A click on any control (navigation arrows, zoom control, edit,
  save, regenerate) or on the card or its content never invokes the close callback. The
  close callback is invoked, once, exactly when the click lands on the backdrop or on one
  of the two container elements of the toolbar.
\<close>

theorem close_callback:
  "closes (click be pr t st) =
     (if t \<in> {Backdrop, ToolbarsContainer, MainToolbar} then closes st + 1 else closes st) \<and>
   (t \<in> {PrevButton, NextButton, ZoomControl, EditButton, SaveButton, RegenerateButton,
          Card, CardContent} \<longrightarrow> closes (click be pr t st) = closes st) \<and>
   closes (click be pr Backdrop st) = closes st + 1"
proof -
  have "t \<in> {PrevButton, NextButton, ZoomControl, EditButton, SaveButton, RegenerateButton,
          Card, CardContent} \<longrightarrow> closes (click be pr t st) = closes st"
    by (auto simp: click_closes)
  then show ?thesis by (simp add: click_closes)
qed

theorem close_callback_witness:
  "EditButton \<in> {PrevButton, NextButton, ZoomControl, EditButton, SaveButton, RegenerateButton,
      Card, CardContent} \<and>
   closes (snd (run online
      [Click PrevButton, Click NextButton, Click ZoomControl, Click EditButton, Click SaveButton,
       Click RegenerateButton, Click Card, Click CardContent]
      (journal falling, mount (journal falling)))) = 0 \<and>
   closes (click online (journal falling) EditButton (mount (journal falling))) = 0 \<and>
   closes (click online (journal falling) Backdrop (mount (journal falling))) = 1"
proof -
  let ?m = "mount (journal falling)"
  have z: "closes ?m = 0" by (simp add: mount_def focusedChanged_def initial_def)
  have "closes (click online (journal falling) EditButton ?m) = 0"
    using close_callback [of online "journal falling" EditButton ?m] z by simp
  moreover have "closes (click online (journal falling) Backdrop ?m) = 1"
    using close_callback [of online "journal falling" Backdrop ?m] z by simp
  moreover have "closes (snd (run online
      [Click PrevButton, Click NextButton, Click ZoomControl, Click EditButton, Click SaveButton,
       Click RegenerateButton, Click Card, Click CardContent]
      (journal falling, ?m))) = 0"
    using z by (simp add: click_closes)
  ultimately show ?thesis by simp
qed

section \<open>Background scrolling\<close>

text \<open>
  Claim C9 as stated fails: a body whose inline \<open>overflow\<close> was \<open>scroll\<close> before the
  view mounted has \<open>overflow\<close> \<open>unset\<close> after it unmounted.
\<close>

theorem scroll_lock_restore_counterexample:
  "get_overflow (set_overflow ''scroll'' (\<lambda>property. [])) = ''scroll'' \<and>
   get_overflow (unlockScroll (lockScroll (set_overflow ''scroll'' (\<lambda>property. []))))
     = ''unset'' \<and>
   unlockScroll (lockScroll (set_overflow ''scroll'' (\<lambda>property. [])))
     \<noteq> set_overflow ''scroll'' (\<lambda>property. [])"
proof -
  let ?before = "set_overflow ''scroll'' (\<lambda>property. []) :: style"
  have before: "get_overflow ?before = ''scroll''"
    by (simp add: get_overflow_def set_overflow_def)
  have after: "get_overflow (unlockScroll (lockScroll ?before)) = ''unset''"
    by (simp add: get_overflow_def set_overflow_def unlockScroll_def lockScroll_def)
  have "unlockScroll (lockScroll ?before) \<noteq> ?before"
  proof
    assume "unlockScroll (lockScroll ?before) = ?before"
    then have "get_overflow (unlockScroll (lockScroll ?before)) = get_overflow ?before" by simp
    then show False by (simp only: after before) simp
  qed
  then show ?thesis using after before by simp
qed

text \<open>
  Claim C9, amended. While the view is mounted the body's \<open>overflow\<close> (both
  \<open>overflow-x\<close> and \<open>overflow-y\<close>), \<open>position\<close> and \<open>width\<close> are \<open>hidden\<close>,
  \<open>fixed\<close> and \<open>100%\<close>. On unmount they are reset to \<open>unset\<close>, the empty string and
  the empty string, whatever they were before the view mounted.
\<close>

theorem scroll_lock_reset:
  "get_overflow (lockScroll body) = ''hidden'' \<and>
   lockScroll body ''overflow-x'' = ''hidden'' \<and>
   lockScroll body ''overflow-y'' = ''hidden'' \<and>
   lockScroll body ''position'' = ''fixed'' \<and>
   lockScroll body ''width'' = ''100%'' \<and>
   get_overflow (unlockScroll (lockScroll body)) = ''unset'' \<and>
   unlockScroll (lockScroll body) ''overflow-x'' = ''unset'' \<and>
   unlockScroll (lockScroll body) ''overflow-y'' = ''unset'' \<and>
   unlockScroll (lockScroll body) ''position'' = [] \<and>
   unlockScroll (lockScroll body) ''width'' = []"
  by (simp add: lockScroll_def unlockScroll_def set_overflow_def get_overflow_def)

theorem scroll_lock_reset_witness:
  "get_overflow ((\<lambda>property. [])(''overflow-x'' := ''scroll'', ''overflow-y'' := ''auto'',
       ''position'' := ''relative'', ''width'' := ''80%'')) = ''scroll auto'' \<and>
   get_overflow (lockScroll ((\<lambda>property. [])(''overflow-x'' := ''scroll'',
       ''overflow-y'' := ''auto'', ''position'' := ''relative'', ''width'' := ''80%'')))
     = ''hidden'' \<and>
   get_overflow (unlockScroll (lockScroll ((\<lambda>property. [])(''overflow-x'' := ''scroll'',
       ''overflow-y'' := ''auto'', ''position'' := ''relative'', ''width'' := ''80%''))))
     = ''unset'' \<and>
   unlockScroll (lockScroll ((\<lambda>property. [])(''overflow-x'' := ''scroll'',
       ''overflow-y'' := ''auto'', ''position'' := ''relative'', ''width'' := ''80%'')))
     ''position'' = []"
proof -
  let ?body = "(\<lambda>property. [])(''overflow-x'' := ''scroll'', ''overflow-y'' := ''auto'',
       ''position'' := ''relative'', ''width'' := ''80%'') :: style"
  have "get_overflow ?body = ''scroll auto''" by (simp add: get_overflow_def css_wide_def)
  then show ?thesis using scroll_lock_reset [of ?body] by simp
qed

end
